theory Spec2Isabelle
  imports Complex_Main "HOL-Library.Sublist"
begin

section \<open>Python strings\<close>

text \<open>
  A Python \<^verbatim>\<open>str\<close> is a sequence of Unicode code points; it is modelled as a list of
  natural numbers, so that \<open>length\<close> counts what \<^verbatim>\<open>len\<close> counts. ASCII literals of the
  source are written \<open>u ''...''\<close>; the six Turkish letters the source names are given
  by their code points.
\<close>

type_synonym cp = nat
type_synonym ustring = "cp list"

definition u :: "string \<Rightarrow> ustring" where
  "u s = map of_char s"

definition COMMA :: cp where "COMMA = 44"
definition SLASH :: cp where "SLASH = 47"
definition UNDERSCORE :: cp where "UNDERSCORE = 95"

definition c_dotless_i :: cp where "c_dotless_i = 305"
definition c_g_breve :: cp where "c_g_breve = 287"
definition c_u_diaeresis :: cp where "c_u_diaeresis = 252"
definition c_s_cedilla :: cp where "c_s_cedilla = 351"
definition c_o_diaeresis :: cp where "c_o_diaeresis = 246"
definition c_c_cedilla :: cp where "c_c_cedilla = 231"

text \<open>
  The two country-name literals of the source: the Turkish name of the country, in
  which the second letter is the u with diaeresis, and \<^verbatim>\<open>"turkey"\<close>.
\<close>

definition TURKIYE :: ustring where
  "TURKIYE = u ''T'' @ [c_u_diaeresis] @ u ''rkiye''"

definition TURKEY_LC :: ustring where
  "TURKEY_LC = u ''turkey''"

text \<open>
  The Unicode character database of the Python runtime is not part of the repository.
  The functions of the source that depend on it take it as a parameter:
  \<^item> \<open>uc_space\<close>: the characters \<^verbatim>\<open>str.strip()\<close>, \<^verbatim>\<open>str.split()\<close> and the regular
    expression class \<^verbatim>\<open>\s\<close> treat as whitespace;
  \<^item> \<open>uc_decimal\<close>: the class \<^verbatim>\<open>\d\<close>;
  \<^item> \<open>uc_alnum\<close>: \<^verbatim>\<open>str.isalnum\<close>, which with the underscore makes the class \<^verbatim>\<open>\w\<close>;
  \<^item> \<open>uc_lower\<close>, \<open>uc_upper\<close>: \<^verbatim>\<open>str.lower()\<close> and \<^verbatim>\<open>str.upper()\<close>, on whole strings
    (a single code point may map to several, and to a different one by context).
\<close>

record ucd =
  uc_space :: "cp \<Rightarrow> bool"
  uc_decimal :: "cp \<Rightarrow> bool"
  uc_alnum :: "cp \<Rightarrow> bool"
  uc_lower :: "ustring \<Rightarrow> ustring"
  uc_upper :: "ustring \<Rightarrow> ustring"

text \<open>Truthiness of an \<^verbatim>\<open>Optional[str]\<close>: \<^verbatim>\<open>None\<close> and \<^verbatim>\<open>""\<close> are false.\<close>

fun truthy :: "ustring option \<Rightarrow> bool" where
  "truthy None = False"
| "truthy (Some s) = (s \<noteq> [])"

text \<open>\<^verbatim>\<open>s.strip()\<close>\<close>

definition py_strip :: "ucd \<Rightarrow> ustring \<Rightarrow> ustring" where
  "py_strip U s = rev (dropWhile (uc_space U) (rev (dropWhile (uc_space U) s)))"

text \<open>\<^verbatim>\<open>s.split(sep)\<close> for a separator of one character: never the empty list.\<close>

fun py_split :: "cp \<Rightarrow> ustring \<Rightarrow> ustring list" where
  "py_split sep [] = [[]]"
| "py_split sep (c # cs) =
     (if c = sep then [] # py_split sep cs
      else (case py_split sep cs of
              [] \<Rightarrow> [[c]]
            | p # ps \<Rightarrow> (c # p) # ps))"

text \<open>
  \<^verbatim>\<open>s.split()\<close>: the maximal runs of non-whitespace characters. The first argument
  is the token being read, reversed.
\<close>

fun split_ws_from :: "ucd \<Rightarrow> ustring \<Rightarrow> ustring \<Rightarrow> ustring list" where
  "split_ws_from U cur [] = (if cur = [] then [] else [rev cur])"
| "split_ws_from U cur (c # cs) =
     (if uc_space U c
      then (if cur = [] then split_ws_from U [] cs else rev cur # split_ws_from U [] cs)
      else split_ws_from U (c # cur) cs)"

definition py_split_ws :: "ucd \<Rightarrow> ustring \<Rightarrow> ustring list" where
  "py_split_ws U s = split_ws_from U [] s"

text \<open>
  \<^verbatim>\<open>s.replace(old, new)\<close> for a non-empty \<open>old\<close>: the occurrences are replaced from
  left to right, without overlap.
\<close>

function py_replace :: "ustring \<Rightarrow> ustring \<Rightarrow> ustring \<Rightarrow> ustring" where
  "py_replace old new [] = []"
| "py_replace old new (c # cs) =
     (if old \<noteq> [] \<and> prefix old (c # cs)
      then new @ py_replace old new (drop (length old) (c # cs))
      else c # py_replace old new cs)"
  by pat_completeness auto
termination
  by (relation "measure (\<lambda>(old, new, s). length s)") (auto simp: neq_Nil_conv)

text \<open>\<^verbatim>\<open>needle in hay\<close>\<close>

fun py_in :: "ustring \<Rightarrow> ustring \<Rightarrow> bool" where
  "py_in needle [] = (needle = [])"
| "py_in needle (c # cs) = (prefix needle (c # cs) \<or> py_in needle cs)"

subsection \<open>The regular expressions of the source\<close>

text \<open>
  \<^verbatim>\<open>\w\<close> is an alphanumeric character or the underscore; \<^verbatim>\<open>\b\<close> holds between two
  positions of which exactly one is a word character, the outside of the string
  counting as a non-word character.
\<close>

definition is_word :: "ucd \<Rightarrow> cp \<Rightarrow> bool" where
  "is_word U c = (uc_alnum U c \<or> c = UNDERSCORE)"

fun word_at :: "ucd \<Rightarrow> cp option \<Rightarrow> bool" where
  "word_at U None = False"
| "word_at U (Some c) = is_word U c"

definition at_boundary :: "ucd \<Rightarrow> cp option \<Rightarrow> cp option \<Rightarrow> bool" where
  "at_boundary U before after = (word_at U before \<noteq> word_at U after)"

definition nth_opt :: "'a list \<Rightarrow> nat \<Rightarrow> 'a option" where
  "nth_opt xs n = (if n < length xs then Some (xs ! n) else None)"

text \<open>\<^verbatim>\<open>\d{5}\<close> matches at the head of the string.\<close>

definition digits5 :: "ucd \<Rightarrow> ustring \<Rightarrow> bool" where
  "digits5 U s = (5 \<le> length s \<and> list_all (uc_decimal U) (take 5 s))"

text \<open>
  \<^verbatim>\<open>re.search(r'\b(\d{5})\b', s)\<close>: the leftmost five digits between two word
  boundaries. The second argument is the character before the current position.
\<close>

fun search_postal :: "ucd \<Rightarrow> cp option \<Rightarrow> ustring \<Rightarrow> ustring option" where
  "search_postal U before [] = None"
| "search_postal U before (c # cs) =
     (if digits5 U (c # cs) \<and> at_boundary U before (Some c)
         \<and> at_boundary U (nth_opt (c # cs) 4) (nth_opt (c # cs) 5)
      then Some (take 5 (c # cs))
      else search_postal U (Some c) cs)"

text \<open>\<^verbatim>\<open>re.search(r'\d{5}', s)\<close>, as a truth value.\<close>

fun re_search_digits5 :: "ucd \<Rightarrow> ustring \<Rightarrow> bool" where
  "re_search_digits5 U [] = False"
| "re_search_digits5 U (c # cs) = (digits5 U (c # cs) \<or> re_search_digits5 U cs)"

text \<open>\<^verbatim>\<open>re.sub(r'\d{5}\s*', '', s)\<close>: every run of five digits goes, with the whitespace after it.\<close>

function re_sub_digits5_ws :: "ucd \<Rightarrow> ustring \<Rightarrow> ustring" where
  "re_sub_digits5_ws U [] = []"
| "re_sub_digits5_ws U (c # cs) =
     (if digits5 U (c # cs)
      then re_sub_digits5_ws U (dropWhile (uc_space U) (drop 5 (c # cs)))
      else c # re_sub_digits5_ws U cs)"
  by pat_completeness auto
termination
proof (relation "measure (\<lambda>(U, s). length s)")
  show "wf (measure (\<lambda>(U, s). length s))" by simp
next
  fix U :: ucd and c :: cp and cs :: ustring
  have "length (dropWhile (uc_space U) (drop 5 (c # cs))) \<le> length (drop 5 (c # cs))"
    by (rule length_dropWhile_le)
  then show "((U, dropWhile (uc_space U) (drop 5 (c # cs))), (U, c # cs))
               \<in> measure (\<lambda>(U, s). length s)"
    by simp
next
  fix U :: ucd and c :: cp and cs :: ustring
  show "((U, cs), (U, c # cs)) \<in> measure (\<lambda>(U, s). length s)" by simp
qed

text \<open>\<^verbatim>\<open>re.sub(r'^\d{5}\s*', '', s)\<close>: the same, at the start of the string only.\<close>

definition re_sub_leading_digits5_ws :: "ucd \<Rightarrow> ustring \<Rightarrow> ustring" where
  "re_sub_leading_digits5_ws U s =
     (if digits5 U s then dropWhile (uc_space U) (drop 5 s) else s)"

section \<open>The postal-prefix table\<close>

text \<open>
  \<^verbatim>\<open>POSTAL_CODE_TO_IL\<close>: the first two digits of a postal code and the province they
  stand for, in the order of the source (a Python dict keeps insertion order, and
  \<^verbatim>\<open>.values()\<close> is read in that order).
\<close>

definition POSTAL_CODE_TO_IL :: "(ustring \<times> ustring) list" where
  "POSTAL_CODE_TO_IL =
    [
    (u ''01'', u ''adana''), (u ''02'', u ''adiyaman''), (u ''03'', u ''afyonkarahisar''),
     (u ''04'', u ''agri''), (u ''05'', u ''amasya''), (u ''06'', u ''ankara''),
     (u ''07'', u ''antalya''), (u ''08'', u ''artvin''), (u ''09'', u ''aydin''),
     (u ''10'', u ''balikesir''), (u ''11'', u ''bilecik''), (u ''12'', u ''bingol''),
     (u ''13'', u ''bitlis''), (u ''14'', u ''bolu''), (u ''15'', u ''burdur''),
     (u ''16'', u ''bursa''), (u ''17'', u ''canakkale''), (u ''18'', u ''cankiri''),
     (u ''19'', u ''corum''), (u ''20'', u ''denizli''), (u ''21'', u ''diyarbakir''),
     (u ''22'', u ''edirne''), (u ''23'', u ''elazig''), (u ''24'', u ''erzincan''),
     (u ''25'', u ''erzurum''), (u ''26'', u ''eskisehir''), (u ''27'', u ''gaziantep''),
     (u ''28'', u ''giresun''), (u ''29'', u ''gumushane''), (u ''30'', u ''hakkari''),
     (u ''31'', u ''hatay''), (u ''32'', u ''isparta''), (u ''33'', u ''mersin''),
     (u ''34'', u ''istanbul''), (u ''35'', u ''izmir''), (u ''36'', u ''kars''),
     (u ''37'', u ''kastamonu''), (u ''38'', u ''kayseri''), (u ''39'', u ''kirklareli''),
     (u ''40'', u ''kirsehir''), (u ''41'', u ''kocaeli''), (u ''42'', u ''konya''),
     (u ''43'', u ''kutahya''), (u ''44'', u ''malatya''), (u ''45'', u ''manisa''),
     (u ''46'', u ''kahramanmaras''), (u ''47'', u ''mardin''), (u ''48'', u ''mugla''),
     (u ''49'', u ''mus''), (u ''50'', u ''nevsehir''), (u ''51'', u ''nigde''),
     (u ''52'', u ''ordu''), (u ''53'', u ''rize''), (u ''54'', u ''sakarya''),
     (u ''55'', u ''samsun''), (u ''56'', u ''siirt''), (u ''57'', u ''sinop''),
     (u ''58'', u ''sivas''), (u ''59'', u ''tekirdag''), (u ''60'', u ''tokat''),
     (u ''61'', u ''trabzon''), (u ''62'', u ''tunceli''), (u ''63'', u ''sanliurfa''),
     (u ''64'', u ''usak''), (u ''65'', u ''van''), (u ''66'', u ''yozgat''),
     (u ''67'', u ''zonguldak''), (u ''68'', u ''aksaray''), (u ''69'', u ''bayburt''),
     (u ''70'', u ''karaman''), (u ''71'', u ''kirikkale''), (u ''72'', u ''batman''),
     (u ''73'', u ''sirnak''), (u ''74'', u ''bartin''), (u ''75'', u ''ardahan''),
     (u ''76'', u ''igdir''), (u ''77'', u ''yalova''), (u ''78'', u ''karabuk''),
     (u ''79'', u ''kilis''), (u ''80'', u ''osmaniye''), (u ''81'', u ''duzce'')]"

text \<open>\<^verbatim>\<open>_normalize_il_name\<close>\<close>

definition normalize_il_name :: "ucd \<Rightarrow> ustring \<Rightarrow> ustring" where
  "normalize_il_name U il_name =
     py_replace [c_c_cedilla] (u ''c'')
       (py_replace [c_o_diaeresis] (u ''o'')
         (py_replace [c_s_cedilla] (u ''s'')
           (py_replace [c_u_diaeresis] (u ''u'')
             (py_replace [c_g_breve] (u ''g'')
               (py_replace [c_dotless_i] (u ''i'')
                 (uc_lower U (py_strip U il_name)))))))"

text \<open>\<^verbatim>\<open>_extract_postal_code_from_address\<close>\<close>

definition extract_postal_code_from_address :: "ucd \<Rightarrow> ustring \<Rightarrow> ustring option" where
  "extract_postal_code_from_address U address = search_postal U None address"

text \<open>\<^verbatim>\<open>_get_il_from_postal_code\<close>\<close>

definition get_il_from_postal_code :: "ustring \<Rightarrow> ustring option" where
  "get_il_from_postal_code postal_code =
     (if 2 \<le> length postal_code
      then map_of POSTAL_CODE_TO_IL (take 2 postal_code)
      else None)"

text \<open>\<^verbatim>\<open>_is_ilce_valid_for_il\<close>\<close>

definition is_ilce_valid_for_il ::
  "ucd \<Rightarrow> ustring option \<Rightarrow> ustring option \<Rightarrow> ustring option \<Rightarrow> bool" where
  "is_ilce_valid_for_il U ilce il address =
     (if \<not> truthy ilce \<or> \<not> truthy il then True
      else (case (il, address) of
              (Some il_s, Some a) \<Rightarrow>
                (if a \<noteq> [] then
                   (case extract_postal_code_from_address U a of
                      Some postal_code \<Rightarrow>
                        (if postal_code \<noteq> [] then
                           (case get_il_from_postal_code postal_code of
                              Some postal_il \<Rightarrow>
                                (if postal_il \<noteq> [] then
                                   (let il_norm = normalize_il_name U il_s;
                                        postal_il_norm = normalize_il_name U postal_il
                                    in if il_norm \<noteq> postal_il_norm then False else True)
                                 else True)
                            | None \<Rightarrow> True)
                         else True)
                    | None \<Rightarrow> True)
                 else True)
            | _ \<Rightarrow> True))"

text \<open>\<^verbatim>\<open>_extract_il_from_location_text\<close>\<close>

definition extract_il_from_location_text :: "ucd \<Rightarrow> ustring \<Rightarrow> ustring option" where
  "extract_il_from_location_text U location_text =
     (if location_text = [] then None
      else
        (let loc_clean = py_strip U (py_replace TURKEY_LC [] (py_replace TURKIYE [] location_text));
             parts = map (py_strip U) (py_split COMMA loc_clean)
         in if parts \<noteq> [] then Some (py_strip U (last parts))
            else if loc_clean \<noteq> [] then Some (py_strip U loc_clean)
            else None))"

section \<open>The province and district resolver\<close>

text \<open>
  \<^verbatim>\<open>_parse_il_from_address_only\<close>, lines 265 to 271 of the source: the trailing
  part of the address, freed of the country name and of postal codes.
\<close>

definition trailing_candidate :: "ucd \<Rightarrow> ustring list \<Rightarrow> ustring" where
  "trailing_candidate U parts =
     (let last_part = py_strip U (last parts);
          last_part1 = py_strip U (py_replace TURKEY_LC [] (py_replace TURKIYE [] last_part))
      in py_strip U (re_sub_digits5_ws U last_part1))"

text \<open>
  Lines 273 to 279: the province candidate. When nothing is left of the trailing part,
  the part before it is taken if it holds no five digits in a row and has at most three
  tokens.
\<close>

definition address_only_candidate :: "ucd \<Rightarrow> ustring list \<Rightarrow> ustring" where
  "address_only_candidate U parts =
     (let last_part2 = trailing_candidate U parts
      in if last_part2 = [] then
           (if 2 \<le> length parts then
              (let second_last = py_strip U (parts ! (length parts - 2))
               in if \<not> re_search_digits5 U second_last \<and> length (py_split_ws U second_last) \<le> 3
                  then second_last
                  else last_part2)
            else last_part2)
         else last_part2)"

text \<open>\<^verbatim>\<open>_parse_il_from_address_only\<close>\<close>

definition parse_il_from_address_only :: "ucd \<Rightarrow> ustring option \<Rightarrow> ustring option" where
  "parse_il_from_address_only U address =
     (case address of
        None \<Rightarrow> None
      | Some a \<Rightarrow>
          if a = [] then None
          else
            (let postal_code = extract_postal_code_from_address U a;
                 postal_il = (case postal_code of
                                None \<Rightarrow> None
                              | Some pc \<Rightarrow> if pc \<noteq> [] then get_il_from_postal_code pc else None)
             in if truthy postal_il then postal_il
                else
                  (let parts = map (py_strip U) (py_split COMMA a)
                   in if parts = [] then None
                      else
                        (let last_part = address_only_candidate U parts;
                             parsed_il =
                               (if py_in [SLASH] last_part then
                                  (let ilce_il = map (py_strip U) (py_split SLASH last_part)
                                   in if 2 \<le> length ilce_il then ilce_il ! 1
                                      else if length ilce_il = 1 then ilce_il ! 0
                                      else last_part)
                                else last_part)
                         in if parsed_il \<noteq> [] then
                              (let parsed_il1 = py_strip U parsed_il;
                                   parsed_il_norm = normalize_il_name U parsed_il1
                               in case find (\<lambda>il_name. normalize_il_name U il_name = parsed_il_norm)
                                         (map snd POSTAL_CODE_TO_IL) of
                                    Some il_name \<Rightarrow> Some il_name
                                  | None \<Rightarrow> Some parsed_il1)
                            else None))))"

text \<open>
  \<^verbatim>\<open>_parse_il_ilce\<close>, lines 335 to 359 of the source: the province and district
  candidates \<^verbatim>\<open>(parsed_il, parsed_ilce)\<close> read from the parts of the address, before
  they are compared with the declared location.
\<close>

definition address_candidates :: "ucd \<Rightarrow> ustring list \<Rightarrow> ustring option \<times> ustring option" where
  "address_candidates U parts =
     (let last_part = last parts;
          (parsed_il, parsed_ilce) =
            (if py_in [SLASH] last_part then
               (let ilce_il = map (py_strip U) (py_split SLASH last_part)
                in if 2 \<le> length ilce_il
                   then (Some (ilce_il ! 1),
                         Some (py_strip U (re_sub_leading_digits5_ws U (ilce_il ! 0))))
                   else if length ilce_il = 1 then (Some (ilce_il ! 0), None)
                   else (None, None))
             else (Some last_part, None));
          parsed_ilce1 =
            (if \<not> truthy parsed_ilce \<and> 2 \<le> length parts then
               (let second_last = py_strip U (parts ! (length parts - 2))
                in if \<not> re_search_digits5 U second_last \<and> length (py_split_ws U second_last) \<le> 3
                   then Some second_last
                   else parsed_ilce)
             else parsed_ilce)
      in (parsed_il, parsed_ilce1))"

text \<open>
  \<^verbatim>\<open>_parse_il_ilce\<close>, lines 362 to 393: the candidates against the declared
  province \<^verbatim>\<open>location_il\<close> and the province of the postal code.
\<close>

definition reconcile_with_location ::
  "ucd \<Rightarrow> ustring option \<Rightarrow> ustring option \<Rightarrow> ustring option \<Rightarrow> ustring option
     \<Rightarrow> ustring option \<times> ustring option" where
  "reconcile_with_location U location_il postal_il parsed_il parsed_ilce =
     (case location_il of
        None \<Rightarrow> (parsed_il, parsed_ilce)
      | Some loc \<Rightarrow>
          if loc = [] then (parsed_il, parsed_ilce)
          else
            (let loc_il_norm = normalize_il_name U loc
             in if truthy postal_il then
                  (case postal_il of
                     None \<Rightarrow> (parsed_il, parsed_ilce)
                   | Some p \<Rightarrow>
                       (let postal_il_norm = normalize_il_name U p
                        in if loc_il_norm \<noteq> postal_il_norm then (location_il, None)
                           else if truthy parsed_il then
                             (case parsed_il of
                                None \<Rightarrow> (location_il, parsed_ilce)
                              | Some q \<Rightarrow>
                                  (let parsed_il_norm = normalize_il_name U q
                                   in if loc_il_norm \<noteq> parsed_il_norm
                                      then (location_il, parsed_ilce)
                                      else (parsed_il, parsed_ilce)))
                           else (location_il, parsed_ilce)))
                else if truthy parsed_il then
                  (case parsed_il of
                     None \<Rightarrow> (location_il, parsed_ilce)
                   | Some q \<Rightarrow>
                       (let parsed_il_norm = normalize_il_name U q
                        in if \<not> py_in loc_il_norm parsed_il_norm \<and> \<not> py_in parsed_il_norm loc_il_norm
                           then (location_il, None)
                           else (parsed_il, parsed_ilce)))
                else (location_il, parsed_ilce)))"

text \<open>\<^verbatim>\<open>_parse_il_ilce\<close>\<close>

definition parse_il_ilce ::
  "ucd \<Rightarrow> ustring option \<Rightarrow> ustring option \<Rightarrow> ustring option \<times> ustring option" where
  "parse_il_ilce U address location_text =
     (let location_il =
            (case location_text of
               None \<Rightarrow> None
             | Some lt \<Rightarrow> if lt \<noteq> [] then extract_il_from_location_text U lt else None)
      in case address of
           None \<Rightarrow> (location_il, None)
         | Some a \<Rightarrow>
             if a = [] then (location_il, None)
             else
               (let postal_code = extract_postal_code_from_address U a;
                    postal_il = (case postal_code of
                                   None \<Rightarrow> None
                                 | Some pc \<Rightarrow> if pc \<noteq> [] then get_il_from_postal_code pc else None);
                    parts = map (py_strip U) (py_split COMMA a)
                in if parts = [] then (location_il, None)
                   else
                     (let (parsed_il, parsed_ilce) = address_candidates U parts;
                          (final_il, final_ilce) =
                            reconcile_with_location U location_il postal_il parsed_il parsed_ilce;
                          final_ilce1 =
                            (if truthy final_il \<and> truthy final_ilce \<and> a \<noteq> [] then
                               (if \<not> is_ilce_valid_for_il U final_ilce final_il (Some a)
                                then None else final_ilce)
                             else final_ilce)
                      in (final_il, final_ilce1))))"

section \<open>A character table for the examples\<close>

text \<open>
  The examples below are evaluated over the part of the Unicode database that covers
  Basic Latin and the twelve Turkish letters outside it. The whitespace characters are
  those of Python's \<^verbatim>\<open>str.isspace\<close>; the decimal digits, letters and case mappings
  are the ones Unicode gives to the characters of this range, a character outside it
  counting as caseless and as neither a letter nor a digit. Lowercasing the dotted
  capital I (U+0130) gives two code points, \<^verbatim>\<open>i\<close> and the combining dot U+0307.
\<close>

definition tr_space :: "cp \<Rightarrow> bool" where
  "tr_space c = (c \<in> set [9, 10, 11, 12, 13, 28, 29, 30, 31, 32, 133, 160, 5760,
       8192, 8193, 8194, 8195, 8196, 8197, 8198, 8199, 8200, 8201, 8202,
       8232, 8233, 8239, 8287, 12288])"

definition tr_decimal :: "cp \<Rightarrow> bool" where
  "tr_decimal c = (48 \<le> c \<and> c \<le> 57)"

definition tr_letter :: "cp \<Rightarrow> bool" where
  "tr_letter c = ((65 \<le> c \<and> c \<le> 90) \<or> (97 \<le> c \<and> c \<le> 122)
       \<or> c \<in> set [199, 214, 220, 231, 246, 252, 286, 287, 304, 305, 350, 351])"

definition tr_alnum :: "cp \<Rightarrow> bool" where
  "tr_alnum c = (tr_letter c \<or> tr_decimal c)"

definition tr_lower_cp :: "cp \<Rightarrow> ustring" where
  "tr_lower_cp c =
     (if 65 \<le> c \<and> c \<le> 90 then [c + 32]
      else if c = 304 then [105, 775]
      else if c = 199 \<or> c = 214 \<or> c = 220 then [c + 32]
      else if c = 286 \<or> c = 350 then [c + 1]
      else [c])"

definition tr_upper_cp :: "cp \<Rightarrow> ustring" where
  "tr_upper_cp c =
     (if 97 \<le> c \<and> c \<le> 122 then [c - 32]
      else if c = 305 then [73]
      else if c = 231 \<or> c = 246 \<or> c = 252 then [c - 32]
      else if c = 287 \<or> c = 351 then [c - 1]
      else [c])"

definition tr_ucd :: ucd where
  "tr_ucd = \<lparr> uc_space = tr_space, uc_decimal = tr_decimal, uc_alnum = tr_alnum,
              uc_lower = (\<lambda>s. concat (map tr_lower_cp s)),
              uc_upper = (\<lambda>s. concat (map tr_upper_cp s)) \<rparr>"

section \<open>The places provider and the search\<close>

text \<open>
  The records exchanged with the provider are JSON objects; a missing key and a
  \<^verbatim>\<open>null\<close> are both \<open>None\<close>. Ratings and coordinates are JSON numbers.
\<close>

record details_block =
  d_formatted_phone_number :: "ustring option"
  d_international_phone_number :: "ustring option"
  d_website :: "ustring option"
  d_opening_hours :: "bool option option"

text \<open>
  \<open>d_opening_hours\<close> is the \<^verbatim>\<open>opening_hours\<close> object, reduced to the one key the
  source reads: \<open>Some None\<close> is an object without \<^verbatim>\<open>open_now\<close>. In a raw result,
  \<open>raw_lat\<close> and \<open>raw_lng\<close> are the two numbers under \<^verbatim>\<open>geometry.location\<close>, \<open>None\<close>
  when any object on the way to them is missing.
\<close>

record raw_result =
  raw_name :: "ustring option"
  raw_formatted_address :: "ustring option"
  raw_lat :: "real option"
  raw_lng :: "real option"
  raw_place_id :: "ustring option"
  raw_types :: "ustring list option"
  raw_rating :: "real option"
  raw_user_ratings_total :: "int option"
  raw_business_status :: "ustring option"
  raw_details :: "details_block option"

record geocode_response =
  gr_status :: "ustring option"
  gr_results :: "(real \<times> real) list"

record search_response =
  sr_status :: "ustring option"
  sr_results :: "raw_result list"
  sr_next_page_token :: "ustring option"

record details_response =
  dr_status :: "ustring option"
  dr_result :: details_block

text \<open>
  A detail lookup runs inside a \<^verbatim>\<open>try\<close> block: \<open>LookupRaised\<close> stands for every
  exception raised there (transport error, timeout, a payload that is not the expected
  object).
\<close>

datatype lookup_outcome = LookupRaised | LookupReply details_response

text \<open>
  The provider, as the client sees it. The text search is asked with the keyword, the
  geocoded point, the radius and the page token, and may answer differently at each
  request: its first argument is the number of requests made before. The detail lookup
  is asked once for each collected result, in no fixed order: its first argument is the
  position of the result in the collected list. The language, the region and the key
  are the same in every request and are left out, as are transport exceptions of the
  geocoding and text search requests, which the source does not handle.
\<close>

record places_api =
  api_geocode :: "ustring \<Rightarrow> geocode_response"
  api_text_search :: "nat \<Rightarrow> ustring \<Rightarrow> real \<times> real \<Rightarrow> int \<Rightarrow> ustring option \<Rightarrow> search_response"
  api_place_details :: "nat \<Rightarrow> ustring \<Rightarrow> lookup_outcome"

definition STATUS_OK :: ustring where "STATUS_OK = u ''OK''"
definition STATUS_ZERO_RESULTS :: ustring where "STATUS_ZERO_RESULTS = u ''ZERO_RESULTS''"

definition TURKIYE_LC :: ustring where
  "TURKIYE_LC = u ''t'' @ [c_u_diaeresis] @ u ''rkiye''"

text \<open>\<^verbatim>\<open>GooglePlacesClient.geocode\<close>\<close>

definition geocode :: "ucd \<Rightarrow> places_api \<Rightarrow> ustring \<Rightarrow> (real \<times> real) option" where
  "geocode U api location_text =
     (let location_query = py_strip U location_text;
          location_query1 =
            (if location_query \<noteq> [] \<and> \<not> py_in TURKIYE_LC (uc_lower U location_query)
                \<and> \<not> py_in TURKEY_LC (uc_lower U location_query)
             then (if \<not> py_in [COMMA] location_query \<and> length (py_split_ws U location_query) \<le> 3
                   then location_query @ u '', '' @ TURKIYE
                   else location_query)
             else location_query);
          data = api_geocode api location_query1
      in if gr_status data \<noteq> Some STATUS_OK \<or> gr_results data = [] then None
         else (case gr_results data of
                 [] \<Rightarrow> None
               | loc # _ \<Rightarrow> Some loc))"

text \<open>
  The inner loop of \<^verbatim>\<open>search_leads\<close>: the items of one page are appended until the
  accumulator holds \<open>limit\<close> of them.
\<close>

fun append_capped :: "int \<Rightarrow> 'a list \<Rightarrow> 'a list \<Rightarrow> 'a list" where
  "append_capped limit collected [] = collected"
| "append_capped limit collected (item # items) =
     (if limit \<le> int (length collected) then collected
      else append_capped limit (collected @ [item]) items)"

datatype search_error =
    GeocodeFailure ustring
  | PlacesApiError "ustring option" search_response

text \<open>
  The \<^verbatim>\<open>while\<close> loop of \<^verbatim>\<open>search_leads\<close>. A provider that keeps answering with a
  page token and no results keeps the loop running, so the loop takes fuel: one unit
  for each request, \<open>None\<close> when it runs out. Beside the accumulator and the token the
  state holds the list of the pages received so far, which the source does not keep:
  its length is the number of requests made. The pause before the next request is not
  modelled.
\<close>

fun search_loop ::
  "nat \<Rightarrow> places_api \<Rightarrow> ustring \<Rightarrow> real \<times> real \<Rightarrow> int \<Rightarrow> int
     \<Rightarrow> raw_result list \<Rightarrow> ustring option \<Rightarrow> search_response list
     \<Rightarrow> (search_error + raw_result list \<times> search_response list) option" where
  "search_loop 0 api keyword loc radius limit collected next_token pages =
     (if \<not> int (length collected) < limit then Some (Inr (collected, pages)) else None)"
| "search_loop (Suc fuel) api keyword loc radius limit collected next_token pages =
     (if \<not> int (length collected) < limit then Some (Inr (collected, pages))
      else
        (let data = api_text_search api (length pages) keyword loc radius
                      (if truthy next_token then next_token else None);
             status = sr_status data
         in if status \<noteq> Some STATUS_OK \<and> status \<noteq> Some STATUS_ZERO_RESULTS
            then Some (Inl (PlacesApiError status data))
            else
              (let collected1 = append_capped limit collected (sr_results data);
                   next_token1 = sr_next_page_token data
               in if \<not> truthy next_token1 \<or> limit \<le> int (length collected1)
                     \<or> status = Some STATUS_ZERO_RESULTS
                  then Some (Inr (collected1, pages @ [data]))
                  else search_loop fuel api keyword loc radius limit
                         collected1 next_token1 (pages @ [data]))))"

text \<open>The function \<^verbatim>\<open>enrich\<close> of \<^verbatim>\<open>search_leads\<close>, for the result at position \<open>i\<close>.\<close>

definition enrich :: "places_api \<Rightarrow> nat \<Rightarrow> raw_result \<Rightarrow> raw_result" where
  "enrich api i item =
     (case raw_place_id item of
        None \<Rightarrow> item
      | Some place_id \<Rightarrow>
          if place_id = [] then item
          else (case api_place_details api i place_id of
                  LookupRaised \<Rightarrow> item
                | LookupReply details \<Rightarrow>
                    if dr_status details = Some STATUS_OK
                    then item\<lparr>raw_details := Some (dr_result details)\<rparr>
                    else item))"

text \<open>
  \<^verbatim>\<open>asyncio.gather(*(enrich(it) for it in collected))\<close>: every task changes its own
  result only, so the order in which the lookups finish does not show.
\<close>

definition enrich_all :: "places_api \<Rightarrow> raw_result list \<Rightarrow> raw_result list" where
  "enrich_all api collected = map (\<lambda>(i, item). enrich api i item) (enumerate 0 collected)"

record search_ok =
  so_leads_raw :: "raw_result list"
  so_total :: nat
  so_keyword :: ustring
  so_location_text :: ustring
  so_radius_meters :: int
  so_include_details :: bool
  so_location :: "real \<times> real"

text \<open>\<^verbatim>\<open>GooglePlacesClient.search_leads\<close>\<close>

definition search_leads ::
  "nat \<Rightarrow> ucd \<Rightarrow> places_api \<Rightarrow> ustring \<Rightarrow> ustring \<Rightarrow> int \<Rightarrow> int \<Rightarrow> bool
     \<Rightarrow> (search_error + search_ok) option" where
  "search_leads fuel U api keyword location_text radius_meters limit include_details =
     (case geocode U api location_text of
        None \<Rightarrow> Some (Inl (GeocodeFailure location_text))
      | Some geocoded \<Rightarrow>
          (case search_loop fuel api keyword geocoded radius_meters limit [] None [] of
             None \<Rightarrow> None
           | Some (Inl e) \<Rightarrow> Some (Inl e)
           | Some (Inr (collected, pages)) \<Rightarrow>
               (let collected1 = (if include_details \<and> collected \<noteq> []
                                  then enrich_all api collected else collected)
                in Some (Inr \<lparr> so_leads_raw = collected1, so_total = length collected1,
                               so_keyword = keyword, so_location_text = location_text,
                               so_radius_meters = radius_meters,
                               so_include_details = include_details,
                               so_location = geocoded \<rparr>))))"

section \<open>Filtering and deduplication\<close>

text \<open>The lead record built by \<^verbatim>\<open>find_business_leads\<close> from a raw result.\<close>

record lead =
  name :: "ustring option"
  formatted_address :: "ustring option"
  latitude :: "real option"
  longitude :: "real option"
  place_id :: "ustring option"
  types :: "ustring list"
  rating :: "real option"
  user_ratings_total :: "int option"
  business_status :: "ustring option"
  phone :: "ustring option"
  phone_intl :: "ustring option"
  website :: "ustring option"
  open_now :: "bool option"

definition to_lead :: "raw_result \<Rightarrow> lead" where
  "to_lead r =
     \<lparr> name = raw_name r,
       formatted_address = raw_formatted_address r,
       latitude = raw_lat r,
       longitude = raw_lng r,
       place_id = raw_place_id r,
       types = (case raw_types r of None \<Rightarrow> [] | Some ts \<Rightarrow> ts),
       rating = raw_rating r,
       user_ratings_total = raw_user_ratings_total r,
       business_status = raw_business_status r,
       phone = (case raw_details r of None \<Rightarrow> None | Some det \<Rightarrow> d_formatted_phone_number det),
       phone_intl = (case raw_details r of None \<Rightarrow> None | Some det \<Rightarrow> d_international_phone_number det),
       website = (case raw_details r of None \<Rightarrow> None | Some det \<Rightarrow> d_website det),
       open_now = (case raw_details r of
                     None \<Rightarrow> None
                   | Some det \<Rightarrow> (case d_opening_hours det of None \<Rightarrow> None | Some h \<Rightarrow> h)) \<rparr>"

record filters =
  min_rating :: "real option"
  min_user_ratings_total :: "int option"
  types_include :: "ustring list option"
  types_exclude :: "ustring list option"
  require_phone_or_website :: bool
  only_open_now :: "bool option"
  business_status_in :: "ustring list option"

text \<open>
  The first block of \<^verbatim>\<open>pass_filters\<close> (lines 117 to 149), the geographic gate:
  \<open>False\<close> where the source returns \<^verbatim>\<open>False\<close>, \<open>True\<close> where it goes on to the
  other filters.
\<close>

definition geo_gate :: "ucd \<Rightarrow> ustring option \<Rightarrow> lead \<Rightarrow> bool" where
  "geo_gate U location_il item =
     (case location_il of
        None \<Rightarrow> True
      | Some loc \<Rightarrow>
          if loc = [] then True
          else
            (case formatted_address item of
               None \<Rightarrow> True
             | Some address \<Rightarrow>
                 if address = [] then True
                 else
                   (let loc_il_norm = normalize_il_name U loc;
                        postal_code = extract_postal_code_from_address U address
                    in if truthy postal_code then
                         (case postal_code of
                            None \<Rightarrow> True
                          | Some pc \<Rightarrow>
                              (case get_il_from_postal_code pc of
                                 None \<Rightarrow> False
                               | Some postal_il \<Rightarrow>
                                   if postal_il = [] then False
                                   else (let postal_il_norm = normalize_il_name U postal_il
                                         in if loc_il_norm \<noteq> postal_il_norm then False else True)))
                       else
                         (let parsed_il_raw = parse_il_from_address_only U (Some address)
                          in if truthy parsed_il_raw then
                               (case parsed_il_raw of
                                  None \<Rightarrow> True
                                | Some p \<Rightarrow>
                                    (let parsed_il_norm = normalize_il_name U p
                                     in if loc_il_norm \<noteq> parsed_il_norm then False else True))
                             else
                               (let address_lower = uc_lower U address
                                in if \<not> py_in loc_il_norm address_lower then False else True)))))"

text \<open>The rest of \<^verbatim>\<open>pass_filters\<close> (lines 151 to 175).\<close>

definition attribute_filters :: "ucd \<Rightarrow> filters \<Rightarrow> lead \<Rightarrow> bool" where
  "attribute_filters U flt item =
     (if (case min_rating flt of
            None \<Rightarrow> False
          | Some m \<Rightarrow> (case rating item of None \<Rightarrow> True | Some r \<Rightarrow> r < m))
      then False
      else if (case min_user_ratings_total flt of
                 None \<Rightarrow> False
               | Some m \<Rightarrow> (case user_ratings_total item of None \<Rightarrow> True | Some ur \<Rightarrow> ur < m))
      then False
      else if (case types_include flt of
                 None \<Rightarrow> False
               | Some ts \<Rightarrow> ts \<noteq> [] \<and> set (types item) \<inter> set (map (uc_lower U) ts) = {})
      then False
      else if (case types_exclude flt of
                 None \<Rightarrow> False
               | Some ts \<Rightarrow> ts \<noteq> [] \<and> set (types item) \<inter> set (map (uc_lower U) ts) \<noteq> {})
      then False
      else if require_phone_or_website flt \<and> \<not> (truthy (phone item) \<or> truthy (website item))
      then False
      else if only_open_now flt = Some True \<and> open_now item \<noteq> Some True
      then False
      else if (case business_status_in flt of
                 None \<Rightarrow> False
               | Some ss \<Rightarrow>
                   ss \<noteq> [] \<and>
                   uc_upper U (case business_status item of None \<Rightarrow> [] | Some b \<Rightarrow> b)
                     \<notin> set (map (uc_upper U) ss))
      then False
      else True)"

text \<open>\<^verbatim>\<open>pass_filters\<close>\<close>

definition pass_filters :: "ucd \<Rightarrow> ustring option \<Rightarrow> filters \<Rightarrow> lead \<Rightarrow> bool" where
  "pass_filters U location_il flt item =
     (if \<not> geo_gate U location_il item then False
      else attribute_filters U flt item)"

text \<open>
  The key of the deduplication: the pair of the stripped, lowercased name and address
  when \<^verbatim>\<open>dedupe_by == "name_address"\<close>, the \<^verbatim>\<open>place_id\<close> (which may be \<^verbatim>\<open>None\<close>)
  for every other value.
\<close>

datatype dedupe_key = NameAddressKey ustring ustring | PlaceIdKey "ustring option"

definition dedupe_key_of :: "ucd \<Rightarrow> ustring \<Rightarrow> lead \<Rightarrow> dedupe_key" where
  "dedupe_key_of U dedupe_by x =
     (if dedupe_by = u ''name_address''
      then NameAddressKey
             (uc_lower U (py_strip U (case name x of None \<Rightarrow> [] | Some n \<Rightarrow> if n \<noteq> [] then n else [])))
             (uc_lower U (py_strip U (case formatted_address x of
                                        None \<Rightarrow> []
                                      | Some a \<Rightarrow> if a \<noteq> [] then a else [])))
      else PlaceIdKey (place_id x))"

text \<open>The deduplication loop, with its two variables \<^verbatim>\<open>seen\<close> and \<^verbatim>\<open>unique\<close>.\<close>

fun dedupe_loop ::
  "ucd \<Rightarrow> ustring \<Rightarrow> dedupe_key set \<Rightarrow> lead list \<Rightarrow> lead list \<Rightarrow> lead list" where
  "dedupe_loop U dedupe_by seen unique [] = unique"
| "dedupe_loop U dedupe_by seen unique (x # xs) =
     (let key = dedupe_key_of U dedupe_by x
      in if key \<in> seen then dedupe_loop U dedupe_by seen unique xs
         else dedupe_loop U dedupe_by (insert key seen) (unique @ [x]) xs)"

definition dedupe :: "ucd \<Rightarrow> ustring \<Rightarrow> lead list \<Rightarrow> lead list" where
  "dedupe U dedupe_by filtered = dedupe_loop U dedupe_by {} [] filtered"

text \<open>
  The filter and deduplication stage of \<^verbatim>\<open>find_business_leads\<close> (lines 177 to 190).
\<close>

definition filter_and_dedupe ::
  "ucd \<Rightarrow> ustring option \<Rightarrow> filters \<Rightarrow> ustring \<Rightarrow> lead list \<Rightarrow> lead list" where
  "filter_and_dedupe U location_il flt dedupe_by leads_out =
     dedupe U dedupe_by (filter (pass_filters U location_il flt) leads_out)"

section \<open>The spreadsheet export\<close>

text \<open>An exception is kept as its message, the value of \<^verbatim>\<open>str(e)\<close>.\<close>

type_synonym exn = ustring

definition DASHES :: ustring where "DASHES = u ''-----''"

text \<open>\<^verbatim>\<open>_is_turkish_mobile\<close>\<close>

definition is_turkish_mobile :: "ustring \<Rightarrow> bool" where
  "is_turkish_mobile phone_clean =
     (if length phone_clean \<noteq> 11 then False
      else if \<not> prefix (u ''05'') phone_clean then False
      else take 4 phone_clean \<in> set [u ''0505'', u ''0506'', u ''0507'', u ''0530'', u ''0531'', u ''0532'', u ''0533'', u ''0534'', u ''0535'', u ''0536'', u ''0537'', u ''0538'', u ''0539'', u ''0541'', u ''0542'', u ''0543'', u ''0544'', u ''0545'', u ''0546'', u ''0549'', u ''0551'', u ''0552'', u ''0553'', u ''0554'', u ''0555''])"

text \<open>\<^verbatim>\<open>_normalize_phone\<close>\<close>

definition normalize_phone :: "ucd \<Rightarrow> ustring \<Rightarrow> ustring" where
  "normalize_phone U ph =
     filter (\<lambda>c. \<not> (uc_space U c \<or> c = 45 \<or> c = 40 \<or> c = 41))
       (py_strip U (py_replace (u ''+ 90'') [] (py_replace (u ''+90'') [] ph)))"

text \<open>\<^verbatim>\<open>_split_phone\<close>\<close>

definition split_phone :: "ucd \<Rightarrow> ustring option \<Rightarrow> ustring option \<Rightarrow> ustring \<times> ustring" where
  "split_phone U phone_arg phone_intl_arg =
     (let (cep, normal) =
            (case phone_intl_arg of
               None \<Rightarrow> ([], [])
             | Some q \<Rightarrow>
                 if q = [] then ([], [])
                 else if is_turkish_mobile (normalize_phone U q) then (q, []) else ([], q));
          (cep1, normal1) =
            (case phone_arg of
               None \<Rightarrow> (cep, normal)
             | Some p \<Rightarrow>
                 if p \<noteq> [] \<and> cep = [] then
                   (if is_turkish_mobile (normalize_phone U p) then (p, normal) else (cep, p))
                 else (cep, normal))
      in (if cep1 \<noteq> [] then cep1 else DASHES, if normal1 \<noteq> [] then normal1 else DASHES))"

text \<open>
  \<^verbatim>\<open>_pick_category_for_keyword\<close>. The built-in table is a Python dict, kept as an
  association list in insertion order; assigning to a key keeps the place of a key that
  is there and puts a new key at the end.
\<close>

definition CATEGORY_MAP :: "(ustring \<times> ustring) list" where
  "CATEGORY_MAP =
    [
     (u ''tar'' @ [305] @ u ''m makina'', u ''Tar'' @ [305] @ u ''m Makina''),
     (u ''tarim makina'', u ''Tar'' @ [305] @ u ''m Makina''),
     (u ''tar'' @ [305] @ u ''m makine'', u ''Tar'' @ [305] @ u ''m Makina''),
     (u ''tarim makine'', u ''Tar'' @ [305] @ u ''m Makina''),
     (u ''makina'', u ''Tar'' @ [305] @ u ''m Makina''),
     (u ''makine'', u ''Tar'' @ [305] @ u ''m Makina''),
     (u ''ila'' @ [231] @ u '' bayi'', [304] @ u ''la'' @ [231] @ u '' Bayi''),
     (u ''ilac bayi'', [304] @ u ''la'' @ [231] @ u '' Bayi''),
     (u ''ila'' @ [231], [304] @ u ''la'' @ [231] @ u '' Bayi''),
     (u ''ilac'', [304] @ u ''la'' @ [231] @ u '' Bayi''),
     (u ''ziraat odas'' @ [305], u ''Ziraat Odalar'' @ [305]),
     (u ''ziraat odasi'', u ''Ziraat Odalar'' @ [305]),
     (u ''ziraat odalar'' @ [305], u ''Ziraat Odalar'' @ [305]),
     (u ''ziraat odalari'', u ''Ziraat Odalar'' @ [305]),
     ([231] @ u ''ift'' @ [231] @ u ''i kooperatifi'', [199] @ u ''ift'' @ [231] @ u ''i Kooperatifi''),
     (u ''ciftci kooperatifi'', [199] @ u ''ift'' @ [231] @ u ''i Kooperatifi''),
     (u ''kooperatif'', [199] @ u ''ift'' @ [231] @ u ''i Kooperatifi''),
     (u ''kooparatif'', [199] @ u ''ift'' @ [231] @ u ''i Kooperatifi'')]"

fun dict_set :: "'k \<Rightarrow> 'v \<Rightarrow> ('k \<times> 'v) list \<Rightarrow> ('k \<times> 'v) list" where
  "dict_set k v [] = [(k, v)]"
| "dict_set k v ((k1, v1) # kvs) =
     (if k1 = k then (k, v) # kvs else (k1, v1) # dict_set k v kvs)"

fun merge_user_map ::
  "ucd \<Rightarrow> (ustring \<times> ustring) list \<Rightarrow> (ustring \<times> ustring) list \<Rightarrow> (ustring \<times> ustring) list" where
  "merge_user_map U category_map [] = category_map"
| "merge_user_map U category_map ((kk, vv) # rest) =
     (if py_strip U kk \<noteq> [] \<and> py_strip U vv \<noteq> []
      then merge_user_map U (dict_set (uc_lower U (py_strip U kk)) (py_strip U vv) category_map) rest
      else merge_user_map U category_map rest)"

text \<open>
  The argument \<open>user_map\<close> is the object read from the environment variable
  \<^verbatim>\<open>GOOGLE_SHEETS_KEYWORD_CATEGORY_MAP\<close>, reduced to its pairs of strings: \<open>None\<close>
  when the variable is empty or does not hold a JSON object. \<^verbatim>\<open>sorted\<close> with
  \<^verbatim>\<open>reverse=True\<close> is stable, as is \<open>sort_key\<close>.
\<close>

definition pick_category_for_keyword ::
  "ucd \<Rightarrow> (ustring \<times> ustring) list option \<Rightarrow> ustring \<Rightarrow> ustring" where
  "pick_category_for_keyword U user_map kw =
     (let k = uc_lower U (py_strip U kw);
          category_map = (case user_map of
                            None \<Rightarrow> CATEGORY_MAP
                          | Some um \<Rightarrow> merge_user_map U CATEGORY_MAP um);
          subs = sort_key (\<lambda>sub. - int (length sub)) (map fst category_map)
      in case find (\<lambda>sub. sub \<noteq> [] \<and> py_in sub k) subs of
           Some sub \<Rightarrow> (case map_of category_map sub of Some c \<Rightarrow> c | None \<Rightarrow> u ''Genel Tar'' @ [305] @ u ''m'')
         | None \<Rightarrow> u ''Genel Tar'' @ [305] @ u ''m'')"

text \<open>\<^verbatim>\<open>_extract_email_from_website\<close>\<close>

definition extract_email_from_website :: "ustring option \<Rightarrow> ustring" where
  "extract_email_from_website site = (if \<not> truthy site then DASHES else DASHES)"

definition SHEET_HEADER :: "ustring list" where
  "SHEET_HEADER = [u ''Kategori'', u ''Bayi Ad'' @ [305], [304] @ u ''l'', [304] @ u ''l'' @ [231] @ u ''e'', u ''Cep Telefonu'', u ''Normal Telefon'', u ''E-posta'']"

definition or_dashes :: "ustring option \<Rightarrow> ustring" where
  "or_dashes x = (case x of None \<Rightarrow> DASHES | Some s \<Rightarrow> if s \<noteq> [] then s else DASHES)"

text \<open>
  \<^verbatim>\<open>leads_to_sheet_rows\<close>. The location text is the one of the query, which the
  source reads back from \<^verbatim>\<open>meta\<close>.
\<close>

definition leads_to_sheet_rows ::
  "ucd \<Rightarrow> (ustring \<times> ustring) list option \<Rightarrow> lead list \<Rightarrow> ustring \<Rightarrow> ustring
     \<Rightarrow> ustring list \<times> ustring list list" where
  "leads_to_sheet_rows U user_map leads loc_text kw =
     (let category = pick_category_for_keyword U user_map kw;
          rows = map (\<lambda>x.
                   (let (il, ilce) = parse_il_ilce U (formatted_address x) (Some loc_text);
                        (cep, normal) = split_phone U (phone x) (phone_intl x);
                        email = extract_email_from_website (website x)
                    in [category, or_dashes (name x), or_dashes il, or_dashes ilce,
                        cep, normal, email])) leads
      in (SHEET_HEADER, rows))"

text \<open>
  The Google Sheets service and the process environment, as the export sees them.
  Every request to the service may raise. Whether the tab exists is asked twice, by
  \<^verbatim>\<open>ensure_header\<close> and by \<^verbatim>\<open>append_rows\<close>: the argument of \<open>sh_sheet_titles\<close> is
  0 for the first question and 1 for the second. \<open>sh_connect\<close> stands for the imports,
  the loading of the service account and the building of the client in
  \<^verbatim>\<open>GoogleSheetsAppender.__init__\<close>: \<open>Some e\<close> when they raise.
\<close>

record sheets_env =
  sh_env_spreadsheet_id :: "ustring option"
  sh_env_sheet_name :: "ustring option"
  sh_env_category_map :: "(ustring \<times> ustring) list option"
  sh_connect :: "exn option"
  sh_sheet_titles :: "nat \<Rightarrow> exn + ustring option list"
  sh_first_row :: "exn + ustring option list"
  sh_update_header :: "ustring list \<Rightarrow> exn option"
  sh_append :: "ustring list list \<Rightarrow> exn + ustring option \<times> int option"

record appender =
  ap_spreadsheet_id :: ustring
  ap_sheet_name :: ustring

record write_result =
  wr_spreadsheet_id :: ustring
  wr_sheet_name :: ustring
  wr_updated_range :: "ustring option"
  wr_updated_rows :: "int option"

definition sheet_missing_message :: "ustring \<Rightarrow> exn" where
  "sheet_missing_message sheet =
     u ''Google Sheets sayfas'' @ [305] @ u '' '' @ [34] @ sheet @ [34] @ u '' bulunamad'' @ [305] @ u ''. L'' @ [252] @ u ''tfen '' @ [246] @ u ''nce '' @ [34] @ sheet @ [34] @ u '' ad'' @ [305] @ u ''nda bir sayfa olu'' @ [351] @ u ''turun.''"

text \<open>\<^verbatim>\<open>GoogleSheetsAppender.__init__\<close>: the tab is always \<^verbatim>\<open>"Leads"\<close>.\<close>

definition appender_init :: "sheets_env \<Rightarrow> ustring option \<Rightarrow> ustring option \<Rightarrow> exn + appender" where
  "appender_init sh spreadsheet_id sheet_name_arg =
     (let sid = (if truthy spreadsheet_id then spreadsheet_id else sh_env_spreadsheet_id sh)
      in case sid of
           None \<Rightarrow> Inl (u ''spreadsheet_id verilmedi (GOOGLE_SHEETS_SPREADSHEET_ID).'')
         | Some s \<Rightarrow>
             if s = [] then Inl (u ''spreadsheet_id verilmedi (GOOGLE_SHEETS_SPREADSHEET_ID).'')
             else (case sh_connect sh of
                     Some e \<Rightarrow> Inl e
                   | None \<Rightarrow> Inr \<lparr> ap_spreadsheet_id = s, ap_sheet_name = u ''Leads'' \<rparr>))"

text \<open>\<^verbatim>\<open>GoogleSheetsAppender._check_sheet_exists\<close>\<close>

definition check_sheet_exists :: "sheets_env \<Rightarrow> appender \<Rightarrow> nat \<Rightarrow> exn + bool" where
  "check_sheet_exists sh ap n =
     (case sh_sheet_titles sh n of
        Inl e \<Rightarrow> Inl e
      | Inr titles \<Rightarrow> Inr (Some (ap_sheet_name ap) \<in> set titles))"

text \<open>\<^verbatim>\<open>GoogleSheetsAppender.ensure_header\<close>\<close>

definition ensure_header :: "sheets_env \<Rightarrow> appender \<Rightarrow> ustring list \<Rightarrow> exn + unit" where
  "ensure_header sh ap header =
     (case check_sheet_exists sh ap 0 of
        Inl e \<Rightarrow> Inl e
      | Inr exists \<Rightarrow>
          if \<not> exists then Inl (sheet_missing_message (ap_sheet_name ap))
          else (case sh_first_row sh of
                  Inl e \<Rightarrow> Inl e
                | Inr first_row \<Rightarrow>
                    (let existing = filter (\<lambda>x. x \<noteq> None) first_row
                     in if existing \<noteq> [] then Inr ()
                        else (case sh_update_header sh header of
                                Some e \<Rightarrow> Inl e
                              | None \<Rightarrow> Inr ()))))"

text \<open>\<^verbatim>\<open>GoogleSheetsAppender.append_rows\<close>\<close>

definition append_rows :: "sheets_env \<Rightarrow> appender \<Rightarrow> ustring list list \<Rightarrow> exn + write_result" where
  "append_rows sh ap rows =
     (case check_sheet_exists sh ap 1 of
        Inl e \<Rightarrow> Inl e
      | Inr exists \<Rightarrow>
          if \<not> exists then Inl (sheet_missing_message (ap_sheet_name ap))
          else (case sh_append sh rows of
                  Inl e \<Rightarrow> Inl e
                | Inr (updated_range, updated_rows) \<Rightarrow>
                    Inr \<lparr> wr_spreadsheet_id = ap_spreadsheet_id ap,
                          wr_sheet_name = ap_sheet_name ap,
                          wr_updated_range = updated_range,
                          wr_updated_rows = updated_rows \<rparr>))"

section \<open>The tool \<^verbatim>\<open>find_business_leads\<close>\<close>

record request =
  rq_keyword :: ustring
  rq_location_text :: ustring
  rq_radius_meters :: int
  rq_limit :: int
  rq_include_details :: bool
  rq_filters :: filters
  rq_output_format :: ustring
  rq_csv_columns :: "ustring list option"
  rq_dedupe_by :: ustring
  rq_export_to_google_sheets :: bool
  rq_google_sheets_spreadsheet_id :: "ustring option"
  rq_google_sheets_sheet_name :: "ustring option"
  rq_google_sheets_include_raw_json :: bool

record environment =
  env_GOOGLE_MAPS_API_KEY :: "ustring option"
  env_GOOGLE_SHEETS_AUTO_EXPORT :: "ustring option"
  env_places :: places_api
  env_sheets :: sheets_env

text \<open>
  The \<^verbatim>\<open>meta\<close> object of a response: the query and the location as
  \<^verbatim>\<open>search_leads\<close> returned them, and the filters of the call. The note, one fixed
  string, is left out.
\<close>

record meta =
  m_keyword :: ustring
  m_location_text :: ustring
  m_radius_meters :: int
  m_include_details :: bool
  m_location :: "real \<times> real"
  m_filters :: filters
  m_dedupe_by :: ustring

datatype sheets_annotation =
    SheetsOk bool write_result nat
  | SheetsFailed bool exn

record json_out =
  jo_leads :: "lead list"
  jo_total :: nat
  jo_meta :: meta
  jo_google_sheets :: "sheets_annotation option"

datatype cell = CNone | CStr ustring | CNum real | CInt int

record csv_out =
  co_total :: nat
  co_columns :: "ustring list"
  co_rows :: "cell list list"
  co_meta :: meta

datatype response =
    ErrorEnvelope search_error
  | CsvResponse csv_out
  | JsonResponse json_out

datatype 'a outcome = Raised exn | Returned 'a

text \<open>Lines 70 to 73 of \<^verbatim>\<open>find_business_leads\<close>.\<close>

definition clamp_limit :: "int \<Rightarrow> int" where
  "clamp_limit lmt =
     (let lmt1 = (if lmt < 1 then 1 else lmt)
      in if lmt1 > 120 then 120 else lmt1)"

definition DEFAULT_COLS :: "ustring list" where
  "DEFAULT_COLS = [u ''name'', u ''formatted_address'', u ''latitude'', u ''longitude'', u ''place_id'', u ''types'', u ''rating'', u ''user_ratings_total'', u ''business_status'', u ''phone'', u ''phone_intl'', u ''website'']"

definition opt_cell :: "('a \<Rightarrow> cell) \<Rightarrow> 'a option \<Rightarrow> cell" where
  "opt_cell f x = (case x of None \<Rightarrow> CNone | Some v \<Rightarrow> f v)"

fun py_join :: "ustring \<Rightarrow> ustring list \<Rightarrow> ustring" where
  "py_join sep [] = []"
| "py_join sep [x] = x"
| "py_join sep (x # y # ys) = x @ sep @ py_join sep (y # ys)"

text \<open>
  A cell of the CSV output: the value \<^verbatim>\<open>x.get(c)\<close> for a column of the default
  list, the types joined by semicolons. The cells are kept as values; writing them as
  text is left to \<^verbatim>\<open>csv.writer\<close>.
\<close>

definition csv_cell :: "lead \<Rightarrow> ustring \<Rightarrow> cell" where
  "csv_cell x c =
     (if c = u ''types'' then CStr (py_join (u '';'') (types x))
      else if c = u ''name'' then opt_cell CStr (name x)
      else if c = u ''formatted_address'' then opt_cell CStr (formatted_address x)
      else if c = u ''latitude'' then opt_cell CNum (latitude x)
      else if c = u ''longitude'' then opt_cell CNum (longitude x)
      else if c = u ''place_id'' then opt_cell CStr (place_id x)
      else if c = u ''rating'' then opt_cell CNum (rating x)
      else if c = u ''user_ratings_total'' then opt_cell CInt (user_ratings_total x)
      else if c = u ''business_status'' then opt_cell CStr (business_status x)
      else if c = u ''phone'' then opt_cell CStr (phone x)
      else if c = u ''phone_intl'' then opt_cell CStr (phone_intl x)
      else if c = u ''website'' then opt_cell CStr (website x)
      else CNone)"

text \<open>
  The \<^verbatim>\<open>try\<close> block of the export (lines 263 to 286): the first exception ends it.
\<close>

definition export_leads ::
  "ucd \<Rightarrow> sheets_env \<Rightarrow> request \<Rightarrow> lead list \<Rightarrow> exn + write_result \<times> nat" where
  "export_leads U sh req unique =
     (let sheet_name =
            (if truthy (rq_google_sheets_sheet_name req) then rq_google_sheets_sheet_name req
             else if truthy (sh_env_sheet_name sh) then sh_env_sheet_name sh
             else Some (u ''Leads''))
      in case appender_init sh (rq_google_sheets_spreadsheet_id req) sheet_name of
           Inl e \<Rightarrow> Inl e
         | Inr ap \<Rightarrow>
             (let (header, rows) =
                    leads_to_sheet_rows U (sh_env_category_map sh) unique
                      (rq_location_text req) (rq_keyword req)
              in case ensure_header sh ap header of
                   Inl e \<Rightarrow> Inl e
                 | Inr _ \<Rightarrow>
                     (case append_rows sh ap rows of
                        Inl e \<Rightarrow> Inl e
                      | Inr write_res \<Rightarrow> Inr (write_res, length rows))))"

text \<open>
  \<^verbatim>\<open>find_business_leads\<close>. The fuel is that of the search loop; \<open>None\<close> is a call
  that has not returned when the fuel runs out, \<open>Raised\<close> an exception that leaves the
  tool (the constructor of the client raises when the API key is not set).
\<close>

definition find_business_leads ::
  "nat \<Rightarrow> ucd \<Rightarrow> environment \<Rightarrow> request \<Rightarrow> response outcome option" where
  "find_business_leads fuel U env req =
     (let lmt = clamp_limit (rq_limit req)
      in if \<not> truthy (env_GOOGLE_MAPS_API_KEY env)
         then Some (Raised (u ''GOOGLE_MAPS_API_KEY bulunamad'' @ [305] @ u ''. L'' @ [252] @ u ''tfen ortam de'' @ [287] @ u ''i'' @ [351] @ u ''kenini ayarlay'' @ [305] @ u ''n.''))
         else
           (case search_leads fuel U (env_places env) (rq_keyword req) (rq_location_text req)
                   (rq_radius_meters req) lmt (rq_include_details req) of
              None \<Rightarrow> None
            | Some (Inl e) \<Rightarrow> Some (Returned (ErrorEnvelope e))
            | Some (Inr raw) \<Rightarrow>
                (let leads_out = map to_lead (so_leads_raw raw);
                     location_il = (if rq_location_text req \<noteq> []
                                    then extract_il_from_location_text U (rq_location_text req)
                                    else None);
                     unique = filter_and_dedupe U location_il (rq_filters req)
                                (rq_dedupe_by req) leads_out;
                     meta = \<lparr> m_keyword = so_keyword raw,
                              m_location_text = so_location_text raw,
                              m_radius_meters = so_radius_meters raw,
                              m_include_details = so_include_details raw,
                              m_location = so_location raw,
                              m_filters = rq_filters req,
                              m_dedupe_by = rq_dedupe_by req \<rparr>
                 in if rq_output_format req = u ''csv'' then
                      (let cols0 = filter (\<lambda>c. c \<in> set DEFAULT_COLS)
                                     (case rq_csv_columns req of
                                        None \<Rightarrow> DEFAULT_COLS
                                      | Some cs \<Rightarrow> if cs \<noteq> [] then cs else DEFAULT_COLS);
                           cols = (if cols0 = [] then DEFAULT_COLS else cols0)
                       in Some (Returned (CsvResponse
                            \<lparr> co_total = length unique, co_columns = cols,
                              co_rows = map (\<lambda>x. map (csv_cell x) cols) unique,
                              co_meta = meta \<rparr>)))
                    else
                      (let out = \<lparr> jo_leads = unique, jo_total = length unique,
                                    jo_meta = meta, jo_google_sheets = None \<rparr>;
                           auto_export =
                             (uc_lower U (py_strip U
                                (case env_GOOGLE_SHEETS_AUTO_EXPORT env of
                                   None \<Rightarrow> []
                                 | Some v \<Rightarrow> v))
                              \<in> set [u ''1'', u ''true'', u ''yes'', u ''on''])
                       in if rq_export_to_google_sheets req \<or> auto_export then
                            (case export_leads U (env_sheets env) req unique of
                               Inr (write_res, rows_sent) \<Rightarrow>
                                 Some (Returned (JsonResponse
                                   (out\<lparr>jo_google_sheets :=
                                          Some (SheetsOk auto_export write_res rows_sent)\<rparr>)))
                             | Inl e \<Rightarrow>
                                 Some (Returned (JsonResponse
                                   (out\<lparr>jo_google_sheets :=
                                          Some (SheetsFailed auto_export e)\<rparr>))))
                          else Some (Returned (JsonResponse out))))))"

section \<open>Example data\<close>

text \<open>
  A lead with nothing but an address, and the filter set of a call that passes no
  filter argument.
\<close>

definition lead_with_address :: "ustring option \<Rightarrow> lead" where
  "lead_with_address addr =
     \<lparr> name = None, formatted_address = addr, latitude = None, longitude = None,
       place_id = None, types = [], rating = None, user_ratings_total = None,
       business_status = None, phone = None, phone_intl = None, website = None,
       open_now = None \<rparr>"

definition no_filters :: filters where
  "no_filters =
     \<lparr> min_rating = None, min_user_ratings_total = None, types_include = None,
       types_exclude = None, require_phone_or_website = False, only_open_now = None,
       business_status_in = None \<rparr>"

definition lead_with_id :: "ustring \<Rightarrow> ustring \<Rightarrow> lead" where
  "lead_with_id pid nm = (lead_with_address None)\<lparr>place_id := Some pid, name := Some nm\<rparr>"

section \<open>The deduplication rule in the words of the specification\<close>

text \<open>
  ``First occurrence in input order wins; later duplicates are dropped. Output
  preserves input order'': the elements of the list at the positions before which
  their key does not occur, in the order of the list. This definition follows the
  specification; \<open>dedupe\<close> above follows the source.
\<close>

definition first_occurrences :: "('a \<Rightarrow> 'k) \<Rightarrow> 'a list \<Rightarrow> 'a list" where
  "first_occurrences key xs =
     [xs ! i. i \<leftarrow> [0..<length xs], key (xs ! i) \<notin> key ` set (take i xs)]"

section \<open>An example provider\<close>

text \<open>
  A result with nothing but an identifier, and a provider whose every page holds two
  results and a page token, and whose every detail lookup raises.
\<close>

definition result_with_id :: "ustring \<Rightarrow> raw_result" where
  "result_with_id pid =
     \<lparr> raw_name = None, raw_formatted_address = None, raw_lat = None, raw_lng = None,
       raw_place_id = Some pid, raw_types = None, raw_rating = None,
       raw_user_ratings_total = None, raw_business_status = None, raw_details = None \<rparr>"

definition example_page :: "nat \<Rightarrow> search_response" where
  "example_page n =
     \<lparr> sr_status = Some STATUS_OK,
       sr_results = [result_with_id (u ''a'' @ [n]), result_with_id (u ''b'' @ [n])],
       sr_next_page_token = Some (u ''next'') \<rparr>"

definition example_api :: places_api where
  "example_api =
     \<lparr> api_geocode = (\<lambda>q. \<lparr> gr_status = Some STATUS_OK, gr_results = [(41, 36)] \<rparr>),
       api_text_search = (\<lambda>n kw loc rad tok. example_page n),
       api_place_details = (\<lambda>i pid. LookupRaised) \<rparr>"

section \<open>Auxiliary notions of the properties\<close>

text \<open>
  The state of the search loop after the page at position \<open>i\<close> of the pages received,
  when the loop goes on to ask for another page: the page carries a token, its status
  is \<^verbatim>\<open>OK\<close>, and the accumulator, which held \<open>n0\<close> results before the first of the
  pages, is still below the limit.
\<close>

definition continues :: "int \<Rightarrow> nat \<Rightarrow> search_response list \<Rightarrow> nat \<Rightarrow> bool" where
  "continues L n0 new i =
     (truthy (sr_next_page_token (new ! i)) \<and> sr_status (new ! i) = Some STATUS_OK
      \<and> int (n0 + length (concat (map sr_results (take (Suc i) new)))) < L)"

text \<open>A detail lookup that fails: it raises, or answers with a status other than \<^verbatim>\<open>OK\<close>.\<close>

definition lookup_fails :: "lookup_outcome \<Rightarrow> bool" where
  "lookup_fails outcome =
     (case outcome of
        LookupRaised \<Rightarrow> True
      | LookupReply details \<Rightarrow> dr_status details \<noteq> Some STATUS_OK)"

text \<open>A raw result without its \<^verbatim>\<open>details\<close> block.\<close>

definition without_details :: "raw_result \<Rightarrow> raw_result" where
  "without_details r = r\<lparr>raw_details := None\<rparr>"

text \<open>
  The value of \<^verbatim>\<open>auto_export\<close> in \<^verbatim>\<open>find_business_leads\<close>, and the leads the tool
  delivers once the search has returned \<open>raw\<close>.
\<close>

definition auto_export_on :: "ucd \<Rightarrow> environment \<Rightarrow> bool" where
  "auto_export_on U env =
     (uc_lower U (py_strip U (case env_GOOGLE_SHEETS_AUTO_EXPORT env of
                                None \<Rightarrow> []
                              | Some v \<Rightarrow> v))
      \<in> set [u ''1'', u ''true'', u ''yes'', u ''on''])"

definition delivered_leads :: "ucd \<Rightarrow> request \<Rightarrow> search_ok \<Rightarrow> lead list" where
  "delivered_leads U req raw =
     filter_and_dedupe U
       (if rq_location_text req \<noteq> []
        then extract_il_from_location_text U (rq_location_text req) else None)
       (rq_filters req) (rq_dedupe_by req) (map to_lead (so_leads_raw raw))"

section \<open>An example call\<close>

text \<open>
  A spreadsheet whose only tab is not the one the export writes to, and a call that asks
  for three leads around Samsun and for their export.
\<close>

definition example_sheets :: sheets_env where
  "example_sheets =
     \<lparr> sh_env_spreadsheet_id = Some (u ''sheet-1''),
       sh_env_sheet_name = None,
       sh_env_category_map = None,
       sh_connect = None,
       sh_sheet_titles = (\<lambda>n. Inr [Some (u ''Sheet1'')]),
       sh_first_row = Inr [],
       sh_update_header = (\<lambda>header. None),
       sh_append = (\<lambda>rows. Inr (None, None)) \<rparr>"

definition example_env :: environment where
  "example_env =
     \<lparr> env_GOOGLE_MAPS_API_KEY = Some (u ''key''),
       env_GOOGLE_SHEETS_AUTO_EXPORT = None,
       env_places = example_api,
       env_sheets = example_sheets \<rparr>"

definition example_request :: request where
  "example_request =
     \<lparr> rq_keyword = u ''bayi'',
       rq_location_text = u ''Samsun'',
       rq_radius_meters = 5000,
       rq_limit = 3,
       rq_include_details = True,
       rq_filters = no_filters,
       rq_output_format = u ''json'',
       rq_csv_columns = None,
       rq_dedupe_by = u ''place_id'',
       rq_export_to_google_sheets = True,
       rq_google_sheets_spreadsheet_id = None,
       rq_google_sheets_sheet_name = None,
       rq_google_sheets_include_raw_json = False \<rparr>"

section \<open>Example addresses\<close>

text \<open>
  The province name written with the g with breve, and an address of that province in
  which no postal code stands and from which no province is parsed.
\<close>

definition MUGLA :: ustring where
  "MUGLA = u ''Mu'' @ [c_g_breve] @ u ''la''"

definition mugla_address :: ustring where
  "mugla_address = MUGLA @ u '' Cad. No 12 Kat 3, '' @ TURKIYE"

section \<open>Properties\<close>

subsection \<open>Evaluation of the examples\<close>

lemmas tr_defs = u_def tr_ucd_def tr_space_def tr_decimal_def tr_alnum_def tr_letter_def
  tr_lower_cp_def tr_upper_cp_def COMMA_def SLASH_def UNDERSCORE_def TURKIYE_def TURKEY_LC_def
  TURKIYE_LC_def c_dotless_i_def c_g_breve_def c_u_diaeresis_def c_s_cedilla_def
  c_o_diaeresis_def c_c_cedilla_def
lemmas py_defs = py_strip_def py_split_ws_def is_word_def at_boundary_def digits5_def
  re_sub_leading_digits5_ws_def nth_opt_def
lemmas res_defs = extract_postal_code_from_address_def get_il_from_postal_code_def
  POSTAL_CODE_TO_IL_def normalize_il_name_def extract_il_from_location_text_def
  is_ilce_valid_for_il_def trailing_candidate_def address_only_candidate_def
  parse_il_from_address_only_def
  address_candidates_def reconcile_with_location_def parse_il_ilce_def


subsection \<open>Postal codes and provinces\<close>

lemma search_postal_length: "search_postal U b s = Some pc \<Longrightarrow> length pc = 5"
  by (induction s arbitrary: b) (auto simp: digits5_def split: if_splits)

lemma extract_postal_nonempty:
  assumes "extract_postal_code_from_address U a = Some pc"
  shows "a \<noteq> []" and "pc \<noteq> []"
proof -
  from assms show "a \<noteq> []" by (auto simp: extract_postal_code_from_address_def)
  from assms have "length pc = 5"
    by (simp add: extract_postal_code_from_address_def search_postal_length)
  then show "pc \<noteq> []" by auto
qed

lemma table_values_nonempty: "\<forall>kv \<in> set POSTAL_CODE_TO_IL. snd kv \<noteq> []"
  by (simp add: POSTAL_CODE_TO_IL_def u_def)

lemma get_il_nonempty: "get_il_from_postal_code pc = Some P \<Longrightarrow> P \<noteq> []"
proof -
  assume "get_il_from_postal_code pc = Some P"
  then have "map_of POSTAL_CODE_TO_IL (take 2 pc) = Some P"
    by (simp add: get_il_from_postal_code_def split: if_splits)
  then have "(take 2 pc, P) \<in> set POSTAL_CODE_TO_IL" by (rule map_of_SomeD)
  with table_values_nonempty show "P \<noteq> []" by fastforce
qed

lemma reconcile_postal:
  assumes "loc \<noteq> []" and "P \<noteq> []"
  shows "\<exists>r. fst (reconcile_with_location U (Some loc) (Some P) parsed_il parsed_ilce) = Some r
            \<and> normalize_il_name U r = normalize_il_name U loc"
    and "normalize_il_name U loc \<noteq> normalize_il_name U P \<Longrightarrow>
           reconcile_with_location U (Some loc) (Some P) parsed_il parsed_ilce = (Some loc, None)"
  using assms by (auto simp: reconcile_with_location_def Let_def split: option.splits)

text \<open>
  Claim C1, as amended. For an address with a standalone five-digit postal code whose
  prefix stands for the province \<open>P\<close>, \<^verbatim>\<open>_parse_il_from_address_only\<close> returns \<open>P\<close>,
  whatever else the address says. \<^verbatim>\<open>_parse_il_ilce\<close>, given a location text from
  which a declared province is derived, returns a province that normalises to the
  declared one: it agrees with \<open>P\<close> up to normalisation exactly when the declared
  province does, and when the two differ the declared province is returned as it is and
  the district is dropped.
\<close>

theorem postal_province_up_to_declared:
  assumes "extract_postal_code_from_address U a = Some pc"
    and "get_il_from_postal_code pc = Some P"
  shows "parse_il_from_address_only U (Some a) = Some P \<and>
         (\<forall>lt loc. lt \<noteq> [] \<and> extract_il_from_location_text U lt = Some loc \<and> loc \<noteq> [] \<longrightarrow>
            (\<exists>r. fst (parse_il_ilce U (Some a) (Some lt)) = Some r
                 \<and> normalize_il_name U r = normalize_il_name U loc) \<and>
            (normalize_il_name U loc \<noteq> normalize_il_name U P \<longrightarrow>
               parse_il_ilce U (Some a) (Some lt) = (Some loc, None)))"
proof -
  from assms(1) have ne: "a \<noteq> []" "pc \<noteq> []" by (rule extract_postal_nonempty)+
  from assms(2) have P: "P \<noteq> []" by (rule get_il_nonempty)
  have one: "parse_il_from_address_only U (Some a) = Some P"
    using assms ne P by (simp add: parse_il_from_address_only_def)
  have two: "(\<exists>r. fst (parse_il_ilce U (Some a) (Some lt)) = Some r
                 \<and> normalize_il_name U r = normalize_il_name U loc) \<and>
            (normalize_il_name U loc \<noteq> normalize_il_name U P \<longrightarrow>
               parse_il_ilce U (Some a) (Some lt) = (Some loc, None))"
    if h: "lt \<noteq> []" "extract_il_from_location_text U lt = Some loc" "loc \<noteq> []" for lt loc
  proof -
    have parts: "map (py_strip U) (py_split COMMA a) \<noteq> []"
      by (cases a) (auto split: list.splits)
    obtain pil pilce where c: "address_candidates U (map (py_strip U) (py_split COMMA a)) = (pil, pilce)"
      by (cases "address_candidates U (map (py_strip U) (py_split COMMA a))") auto
    obtain fil filce where r: "reconcile_with_location U (Some loc) (Some P) pil pilce = (fil, filce)"
      by (cases "reconcile_with_location U (Some loc) (Some P) pil pilce") auto
    have eq: "parse_il_ilce U (Some a) (Some lt) =
            (fil, if truthy fil \<and> truthy filce \<and> a \<noteq> [] then
                    (if \<not> is_ilce_valid_for_il U filce fil (Some a) then None else filce)
                  else filce)"
      using assms ne h parts c r by (simp add: parse_il_ilce_def)
    from reconcile_postal(1)[OF h(3) P, of U pil pilce] r
    have a1: "\<exists>r. fil = Some r \<and> normalize_il_name U r = normalize_il_name U loc" by simp
    have a2: "normalize_il_name U loc \<noteq> normalize_il_name U P \<Longrightarrow> fil = Some loc \<and> filce = None"
      using reconcile_postal(2)[OF h(3) P, of U pil pilce] r by simp
    show ?thesis using eq a1 a2 by auto
  qed
  from one two show ?thesis by blast
qed

theorem postal_province_up_to_declared_witness:
  "extract_postal_code_from_address tr_ucd (u ''Atakum, 55200 Samsun'') = Some (u ''55200'')
   \<and> get_il_from_postal_code (u ''55200'') = Some (u ''samsun'')
   \<and> extract_il_from_location_text tr_ucd (u ''Samsun'') = Some (u ''Samsun'')
   \<and> parse_il_from_address_only tr_ucd (Some (u ''Atakum, 55200 Samsun'')) = Some (u ''samsun'')
   \<and> (\<exists>r. fst (parse_il_ilce tr_ucd (Some (u ''Atakum, 55200 Samsun'')) (Some (u ''Samsun''))) = Some r
          \<and> normalize_il_name tr_ucd r = normalize_il_name tr_ucd (u ''Samsun''))"
proof -
  have h1: "extract_postal_code_from_address tr_ucd (u ''Atakum, 55200 Samsun'') = Some (u ''55200'')"
    by (simp add: tr_defs py_defs res_defs)
  have h2: "get_il_from_postal_code (u ''55200'') = Some (u ''samsun'')"
    by (simp add: tr_defs res_defs)
  have h3: "extract_il_from_location_text tr_ucd (u ''Samsun'') = Some (u ''Samsun'')"
    by (simp add: tr_defs py_defs res_defs)
  have h4: "u ''Samsun'' \<noteq> []" by (simp add: u_def)
  from postal_province_up_to_declared [OF h1 h2] h1 h2 h3 h4
  show ?thesis by blast
qed

text \<open>
  The claim C1 as it was stated fails: the postal code of the address stands for
  Malatya, the declared location is Samsun, and the resolver answers Samsun.
\<close>

theorem postal_province_counterexample:
  "extract_postal_code_from_address tr_ucd (u ''Merkez, 44000 Malatya'') = Some (u ''44000'')
   \<and> get_il_from_postal_code (u ''44000'') = Some (u ''malatya'')
   \<and> fst (parse_il_ilce tr_ucd (Some (u ''Merkez, 44000 Malatya'')) (Some (u ''Samsun'')))
       = Some (u ''Samsun'')
   \<and> u ''Samsun'' \<noteq> u ''malatya''"
  by (simp add: tr_defs py_defs res_defs)

subsection \<open>The geographic gate\<close>

text \<open>
  Claim C2. When a declared province was derived from the location text and the
  address of the lead holds a five-digit postal code, the lead is rejected if the
  prefix stands for no province of the table, and rejected if it stands for a province
  whose normalised name differs from the normalised declared province.
\<close>

theorem postal_mismatch_rejected:
  assumes "location_il = Some loc" and "loc \<noteq> []"
    and "formatted_address item = Some address"
    and "extract_postal_code_from_address U address = Some pc"
    and "get_il_from_postal_code pc = None \<or>
         (\<exists>P. get_il_from_postal_code pc = Some P \<and>
              normalize_il_name U P \<noteq> normalize_il_name U loc)"
  shows "\<not> geo_gate U location_il item \<and> \<not> pass_filters U location_il flt item"
proof -
  from assms(4) have ne: "address \<noteq> []" "pc \<noteq> []" by (rule extract_postal_nonempty)+
  have "\<not> geo_gate U location_il item"
    using assms ne by (auto simp: geo_gate_def Let_def)
  then show ?thesis by (simp add: pass_filters_def)
qed

theorem postal_mismatch_rejected_witness:
  "extract_postal_code_from_address tr_ucd (u ''Merkez, 44000 Malatya'') = Some (u ''44000'')
   \<and> get_il_from_postal_code (u ''44000'') = Some (u ''malatya'')
   \<and> normalize_il_name tr_ucd (u ''malatya'') \<noteq> normalize_il_name tr_ucd (u ''Samsun'')
   \<and> \<not> pass_filters tr_ucd (Some (u ''Samsun'')) no_filters
         (lead_with_address (Some (u ''Merkez, 44000 Malatya'')))"
proof -
  have h1: "extract_postal_code_from_address tr_ucd (u ''Merkez, 44000 Malatya'') = Some (u ''44000'')"
    by (simp add: tr_defs py_defs res_defs)
  have h2: "get_il_from_postal_code (u ''44000'') = Some (u ''malatya'')"
    by (simp add: tr_defs res_defs)
  have h3: "normalize_il_name tr_ucd (u ''malatya'') \<noteq> normalize_il_name tr_ucd (u ''Samsun'')"
    by (simp add: tr_defs py_defs res_defs)
  have h4: "u ''Samsun'' \<noteq> []" by (simp add: u_def)
  have h5: "formatted_address (lead_with_address (Some (u ''Merkez, 44000 Malatya'')))
              = Some (u ''Merkez, 44000 Malatya'')"
    by (simp add: lead_with_address_def)
  from h2 h3 have h6: "get_il_from_postal_code (u ''44000'') = None \<or>
         (\<exists>P. get_il_from_postal_code (u ''44000'') = Some P \<and>
              normalize_il_name tr_ucd P \<noteq> normalize_il_name tr_ucd (u ''Samsun''))" by blast
  from postal_mismatch_rejected [OF refl h4 h5 h1 h6, of no_filters] h1 h2 h3
  show ?thesis by blast
qed

text \<open>
  Claim C10. A lead whose \<^verbatim>\<open>formatted_address\<close> is missing or empty passes the
  geographic gate whatever the declared province is, and is then judged by the
  attribute filters alone.
\<close>

theorem no_address_bypasses_gate:
  assumes "formatted_address item = None \<or> formatted_address item = Some []"
  shows "geo_gate U location_il item \<and>
         pass_filters U location_il flt item = attribute_filters U flt item"
proof -
  have "geo_gate U location_il item"
    using assms by (auto simp: geo_gate_def split: option.splits)
  then show ?thesis by (simp add: pass_filters_def)
qed

theorem no_address_bypasses_gate_witness:
  "formatted_address (lead_with_address None) = None
   \<and> geo_gate tr_ucd (Some (u ''Samsun'')) (lead_with_address None)
   \<and> pass_filters tr_ucd (Some (u ''Samsun'')) no_filters (lead_with_address None)"
proof -
  have h: "formatted_address (lead_with_address None) = None \<or>
           formatted_address (lead_with_address None) = Some []"
    by (simp add: lead_with_address_def)
  have a: "attribute_filters tr_ucd no_filters (lead_with_address None)"
    by (simp add: attribute_filters_def no_filters_def lead_with_address_def)
  from no_address_bypasses_gate [OF h, of tr_ucd "Some (u ''Samsun'')" no_filters] a
  show ?thesis by (simp add: lead_with_address_def)
qed

subsection \<open>Deduplication\<close>

lemma dedupe_loop_acc:
  "dedupe_loop U mode seen unique xs = unique @ dedupe_loop U mode seen [] xs"
proof (induction xs arbitrary: seen unique)
  case Nil
  then show ?case by simp
next
  case (Cons x xs)
  show ?case
  proof (cases "dedupe_key_of U mode x \<in> seen")
    case True
    then show ?thesis using Cons.IH [of seen unique] by simp
  next
    case False
    then show ?thesis
      using Cons.IH [of "insert (dedupe_key_of U mode x) seen" "unique @ [x]"]
            Cons.IH [of "insert (dedupe_key_of U mode x) seen" "[x]"]
      by simp
  qed
qed

lemma dedupe_loop_Cons:
  "dedupe_loop U mode seen [] (x # xs) =
     (if dedupe_key_of U mode x \<in> seen then dedupe_loop U mode seen [] xs
      else x # dedupe_loop U mode (insert (dedupe_key_of U mode x) seen) [] xs)"
  using dedupe_loop_acc [of U mode "insert (dedupe_key_of U mode x) seen" "[x]" xs] by simp

lemma dedupe_loop_comprehension:
  "dedupe_loop U mode seen [] xs =
     [xs ! i. i \<leftarrow> [0..<length xs],
        dedupe_key_of U mode (xs ! i) \<notin> seen \<union> dedupe_key_of U mode ` set (take i xs)]"
proof (induction xs arbitrary: seen)
  case Nil
  then show ?case by simp
next
  case (Cons x xs)
  have upt: "[0..<length (x # xs)] = 0 # map Suc [0..<length xs]"
    by (simp only: length_Cons map_Suc_upt upt_conv_Cons [of 0 "Suc (length xs)", OF zero_less_Suc])
  show ?case
    unfolding dedupe_loop_Cons upt
    by (auto simp: Cons.IH comp_def intro!: arg_cong [where f = concat] map_cong)
qed

lemma dedupe_first_occurrences:
  "dedupe U mode xs = first_occurrences (dedupe_key_of U mode) xs"
  by (simp add: dedupe_def first_occurrences_def dedupe_loop_comprehension)

lemma dedupe_loop_subseq: "subseq (dedupe_loop U mode seen [] xs) xs"
proof (induction xs arbitrary: seen)
  case Nil
  then show ?case by simp
next
  case (Cons x xs)
  then show ?case unfolding dedupe_loop_Cons by auto
qed

lemma dedupe_loop_keys:
  "dedupe_key_of U mode ` set (dedupe_loop U mode seen [] xs) = dedupe_key_of U mode ` set xs - seen"
proof (induction xs arbitrary: seen)
  case Nil
  then show ?case by simp
next
  case (Cons x xs)
  show ?case unfolding dedupe_loop_Cons by (auto simp: Cons.IH)
qed

lemma dedupe_loop_distinct:
  "distinct (map (dedupe_key_of U mode) (dedupe_loop U mode seen [] xs))"
proof (induction xs arbitrary: seen)
  case Nil
  then show ?case by simp
next
  case (Cons x xs)
  show ?case unfolding dedupe_loop_Cons
    using dedupe_loop_keys [of U mode "insert (dedupe_key_of U mode x) seen" xs]
    by (auto simp: Cons.IH)
qed

lemma dedupe_loop_fixed:
  "distinct (map (dedupe_key_of U mode) xs) \<Longrightarrow> dedupe_key_of U mode ` set xs \<inter> seen = {}
     \<Longrightarrow> dedupe_loop U mode seen [] xs = xs"
proof (induction xs arbitrary: seen)
  case Nil
  then show ?case by simp
next
  case (Cons x xs)
  from Cons.prems have "dedupe_key_of U mode x \<notin> seen" by auto
  moreover have "dedupe_loop U mode (insert (dedupe_key_of U mode x) seen) [] xs = xs"
    using Cons.prems by (intro Cons.IH) auto
  ultimately show ?case unfolding dedupe_loop_Cons by simp
qed

lemma subseq_set: "subseq ys xs \<Longrightarrow> set ys \<subseteq> set xs"
  by (metis set_nths_subset subseq_conv_nths)

lemma filter_and_dedupe_idem:
  "filter_and_dedupe U loc flt mode (filter_and_dedupe U loc flt mode xs)
     = filter_and_dedupe U loc flt mode xs"
proof -
  let ?p = "pass_filters U loc flt"
  let ?ds = "dedupe U mode (filter ?p xs)"
  have sub: "subseq ?ds (filter ?p xs)"
    by (simp add: dedupe_def dedupe_loop_subseq)
  then have "set ?ds \<subseteq> set (filter ?p xs)" by (rule subseq_set)
  then have "\<forall>x \<in> set ?ds. ?p x" by auto
  then have f: "filter ?p ?ds = ?ds" by (simp add: filter_id_conv)
  have d: "dedupe U mode ?ds = ?ds"
    unfolding dedupe_def [of U mode ?ds]
    by (rule dedupe_loop_fixed) (simp_all add: dedupe_def dedupe_loop_distinct)
  show ?thesis by (simp add: filter_and_dedupe_def f d)
qed

text \<open>
  Claim C6. The deduplication keeps, of the leads with one key, the first in input
  order and drops the later ones, in both modes of the key: its result is the list of
  first occurrences, a subsequence of the input without two leads of one key, in which
  every key of the input is still there. Filtering and deduplicating the result of the
  filter and deduplication stage once more gives the same list.
\<close>

theorem dedupe_first_wins_and_idempotent:
  "dedupe U mode xs = first_occurrences (dedupe_key_of U mode) xs
   \<and> subseq (dedupe U mode xs) xs
   \<and> distinct (map (dedupe_key_of U mode) (dedupe U mode xs))
   \<and> dedupe_key_of U mode ` set (dedupe U mode xs) = dedupe_key_of U mode ` set xs
   \<and> filter_and_dedupe U loc flt mode (filter_and_dedupe U loc flt mode xs)
       = filter_and_dedupe U loc flt mode xs"
  using dedupe_first_occurrences [of U mode xs] dedupe_loop_subseq [of U mode "{}" xs]
    dedupe_loop_distinct [of U mode "{}" xs] dedupe_loop_keys [of U mode "{}" xs]
    filter_and_dedupe_idem [of U loc flt mode xs]
  by (simp add: dedupe_def)

theorem dedupe_first_wins_and_idempotent_witness:
  "dedupe tr_ucd (u ''place_id'')
     [lead_with_id (u ''A'') (u ''one''), lead_with_id (u ''B'') (u ''two''),
      lead_with_id (u ''A'') (u ''three'')]
   = [lead_with_id (u ''A'') (u ''one''), lead_with_id (u ''B'') (u ''two'')]"
  using dedupe_first_wins_and_idempotent
    [of tr_ucd "u ''place_id''"
        "[lead_with_id (u ''A'') (u ''one''), lead_with_id (u ''B'') (u ''two''),
          lead_with_id (u ''A'') (u ''three'')]"]
  by (simp add: first_occurrences_def dedupe_key_of_def lead_with_id_def
        lead_with_address_def u_def)

subsection \<open>The paginated search\<close>

lemma append_capped_take:
  "append_capped L c items = c @ take (nat L - length c) items"
proof (induction items arbitrary: c)
  case Nil
  then show ?case by simp
next
  case (Cons item items)
  show ?case
  proof (cases "L \<le> int (length c)")
    case True
    then have "nat L - length c = 0" by simp
    with True show ?thesis by simp
  next
    case False
    then have "length c < nat L" by linarith
    then obtain k where k: "nat L - length c = Suc k"
      by (cases "nat L - length c") auto
    then have "nat L - Suc (length c) = k" by simp
    with False k show ?thesis by (simp add: Cons.IH)
  qed
qed

lemma search_loop_trace:
  assumes "search_loop fuel api kw loc rad L collected tok pages = Some (Inr (collected', pages'))"
  shows "\<exists>new. pages' = pages @ new
           \<and> collected' = collected @ take (nat L - length collected) (concat (map sr_results new))
           \<and> (\<forall>i. Suc i < length new \<longrightarrow> continues L (length collected) new i)
           \<and> (new \<noteq> [] \<longrightarrow> int (length collected) < L)"
  using assms
proof (induction fuel arbitrary: collected tok pages)
  case 0
  then have "collected' = collected" "pages' = pages"
    by (auto split: if_splits)
  then show ?case by (intro exI [of _ "[]"]) simp
next
  case (Suc fuel)
  show ?case
  proof (cases "int (length collected) < L")
    case False
    with Suc.prems have "collected' = collected" "pages' = pages" by auto
    then show ?thesis by (intro exI [of _ "[]"]) simp
  next
    case lt: True
    define data where "data = api_text_search api (length pages) kw loc rad
                                (if truthy tok then tok else None)"
    define c1 where "c1 = append_capped L collected (sr_results data)"
    have c1: "c1 = collected @ take (nat L - length collected) (sr_results data)"
      by (simp add: c1_def append_capped_take)
    from Suc.prems lt have ok: "sr_status data = Some STATUS_OK \<or> sr_status data = Some STATUS_ZERO_RESULTS"
      by (auto simp: data_def Let_def split: if_splits)
    show ?thesis
    proof (cases "\<not> truthy (sr_next_page_token data) \<or> L \<le> int (length c1)
                    \<or> sr_status data = Some STATUS_ZERO_RESULTS")
      case True
      with Suc.prems lt ok have "collected' = c1" "pages' = pages @ [data]"
        by (auto simp: data_def [symmetric] c1_def [symmetric] Let_def split: if_splits)
      with c1 lt show ?thesis by (intro exI [of _ "[data]"]) simp
    next
      case False
      with ok have st: "sr_status data = Some STATUS_OK" by auto
      from False have tk: "truthy (sr_next_page_token data)" and small: "int (length c1) < L"
        by auto
      from Suc.prems lt ok False
      have rec: "search_loop fuel api kw loc rad L c1 (sr_next_page_token data) (pages @ [data])
                   = Some (Inr (collected', pages'))"
        by (auto simp: data_def [symmetric] c1_def [symmetric] Let_def split: if_splits)
      have full: "take (nat L - length collected) (sr_results data) = sr_results data"
      proof (rule ccontr)
        assume "take (nat L - length collected) (sr_results data) \<noteq> sr_results data"
        then have "nat L - length collected < length (sr_results data)"
          by (metis take_all not_le)
        then have "length c1 = nat L" using lt by (simp add: c1 min_def)
        with small lt show False by linarith
      qed
      then have c1': "c1 = collected @ sr_results data" by (simp add: c1)
      from Suc.IH [OF rec] obtain new where
        n1: "pages' = (pages @ [data]) @ new" and
        n2: "collected' = c1 @ take (nat L - length c1) (concat (map sr_results new))" and
        n3: "\<forall>i. Suc i < length new \<longrightarrow> continues L (length c1) new i" and
        n4: "new \<noteq> [] \<longrightarrow> int (length c1) < L"
        by blast
      have p1: "pages' = pages @ (data # new)" using n1 by simp
      have p2: "collected' = collected @ take (nat L - length collected)
                               (concat (map sr_results (data # new)))"
        using n2 by (simp add: c1' full)
      have p3: "continues L (length collected) (data # new) i" if "Suc i < length (data # new)" for i
      proof (cases i)
        case 0
        then show ?thesis using tk st small by (simp add: continues_def c1')
      next
        case (Suc j)
        with that have "Suc j < length new" by simp
        with n3 have "continues L (length c1) new j" by blast
        then show ?thesis by (simp add: continues_def c1' Suc add.assoc)
      qed
      show ?thesis using p1 p2 p3 lt by (intro exI [of _ "data # new"]) simp
    qed
  qed
qed

lemma status_distinct: "STATUS_OK \<noteq> STATUS_ZERO_RESULTS"
  by (simp add: STATUS_OK_def STATUS_ZERO_RESULTS_def u_def)

lemma search_loop_requests:
  assumes "search_loop fuel api kw loc rad L collected tok pages = Some (Inr (collected', pages'))"
  shows "\<exists>new. pages' = pages @ new
           \<and> (\<forall>i < length new.
                 new ! i = api_text_search api (length pages + i) kw loc rad
                             (if i = 0 then (if truthy tok then tok else None)
                              else sr_next_page_token (new ! (i - 1))))"
  using assms
proof (induction fuel arbitrary: collected tok pages)
  case 0
  then have "pages' = pages" by (auto split: if_splits)
  then show ?case by (intro exI [of _ "[]"]) simp
next
  case (Suc fuel)
  show ?case
  proof (cases "int (length collected) < L")
    case False
    with Suc.prems have "pages' = pages" by auto
    then show ?thesis by (intro exI [of _ "[]"]) simp
  next
    case lt: True
    define data where "data = api_text_search api (length pages) kw loc rad
                                (if truthy tok then tok else None)"
    define c1 where "c1 = append_capped L collected (sr_results data)"
    from Suc.prems lt have ok: "sr_status data = Some STATUS_OK \<or> sr_status data = Some STATUS_ZERO_RESULTS"
      by (auto simp: data_def Let_def split: if_splits)
    show ?thesis
    proof (cases "\<not> truthy (sr_next_page_token data) \<or> L \<le> int (length c1)
                    \<or> sr_status data = Some STATUS_ZERO_RESULTS")
      case True
      with Suc.prems lt ok have "pages' = pages @ [data]"
        by (auto simp: data_def [symmetric] c1_def [symmetric] Let_def split: if_splits)
      then show ?thesis by (intro exI [of _ "[data]"]) (simp add: data_def)
    next
      case False
      then have tk: "truthy (sr_next_page_token data)" by auto
      from Suc.prems lt ok False
      have rec: "search_loop fuel api kw loc rad L c1 (sr_next_page_token data) (pages @ [data])
                   = Some (Inr (collected', pages'))"
        by (auto simp: data_def [symmetric] c1_def [symmetric] Let_def split: if_splits)
      from Suc.IH [OF rec] obtain new where
        n1: "pages' = (pages @ [data]) @ new" and
        n2: "\<forall>i < length new.
               new ! i = api_text_search api (length (pages @ [data]) + i) kw loc rad
                           (if i = 0 then (if truthy (sr_next_page_token data)
                                           then sr_next_page_token data else None)
                            else sr_next_page_token (new ! (i - 1)))"
        by blast
      have p: "(data # new) ! i = api_text_search api (length pages + i) kw loc rad
                 (if i = 0 then (if truthy tok then tok else None)
                  else sr_next_page_token ((data # new) ! (i - 1)))"
        if "i < length (data # new)" for i
      proof (cases i)
        case 0
        then show ?thesis by (simp add: data_def)
      next
        case (Suc j)
        with that have j: "j < length new" by simp
        show ?thesis
        proof (cases j)
          case 0
          with n2 j tk Suc show ?thesis by simp
        next
          case (Suc k)
          with n2 j \<open>i = Suc j\<close> show ?thesis by simp
        qed
      qed
      show ?thesis using n1 p by (intro exI [of _ "data # new"]) simp
    qed
  qed
qed

lemma search_loop_returns:
  assumes "\<forall>n tok. sr_status (api_text_search api n kw loc rad tok) = Some STATUS_OK
                   \<and> truthy (sr_next_page_token (api_text_search api n kw loc rad tok))
                   \<longrightarrow> sr_results (api_text_search api n kw loc rad tok) \<noteq> []"
    and "nat L - length collected \<le> fuel"
  shows "search_loop fuel api kw loc rad L collected tok pages \<noteq> None"
  using assms(2)
proof (induction fuel arbitrary: collected tok pages)
  case 0
  then have "\<not> int (length collected) < L" by linarith
  then show ?case by simp
next
  case (Suc fuel)
  show ?case
  proof (cases "int (length collected) < L")
    case False
    then show ?thesis by simp
  next
    case lt: True
    define data where "data = api_text_search api (length pages) kw loc rad
                                (if truthy tok then tok else None)"
    define c1 where "c1 = append_capped L collected (sr_results data)"
    have c1: "c1 = collected @ take (nat L - length collected) (sr_results data)"
      by (simp add: c1_def append_capped_take)
    show ?thesis
    proof (cases "sr_status data = Some STATUS_OK \<and> truthy (sr_next_page_token data)
                    \<and> \<not> L \<le> int (length c1)")
      case True
      with assms(1) have "sr_results data \<noteq> []" by (simp add: data_def)
      moreover from lt have "0 < nat L - length collected" by linarith
      ultimately have "length collected < length c1" by (cases "sr_results data") (auto simp: c1)
      with Suc.prems have "nat L - length c1 \<le> fuel" by linarith
      then have "search_loop fuel api kw loc rad L c1 (sr_next_page_token data) (pages @ [data])
                   \<noteq> None"
        by (rule Suc.IH)
      with lt True show ?thesis
        by (simp add: data_def [symmetric] c1_def [symmetric] Let_def status_distinct)
    next
      case False
      with lt show ?thesis
        by (auto simp: data_def [symmetric] c1_def [symmetric] Let_def)
    qed
  qed
qed

text \<open>
  Claim C4. For a limit \<open>L\<close> of at least 1, a search loop that returns has collected
  at most \<open>L\<close> results: exactly the first \<open>L\<close> results of the pages it received, in
  order, so that it stops in the middle of a page when the limit is reached there. The
  pages are the answers to its requests, each made with the token of the page before.
  Every page after which another page was requested carried a page token, had the
  status \<^verbatim>\<open>OK\<close> and left the accumulator below \<open>L\<close>: no page is requested once the
  limit is reached, a page comes without a token, or the status is
  \<^verbatim>\<open>ZERO_RESULTS\<close>.
\<close>

theorem accumulator_capped:
  assumes "1 \<le> L"
    and "search_loop fuel api kw loc rad L [] None [] = Some (Inr (collected, pages))"
  shows "int (length collected) \<le> L
         \<and> collected = take (nat L) (concat (map sr_results pages))
         \<and> (\<forall>i < length pages.
               pages ! i = api_text_search api i kw loc rad
                             (if i = 0 then None else sr_next_page_token (pages ! (i - 1))))
         \<and> (\<forall>i. Suc i < length pages \<longrightarrow>
               truthy (sr_next_page_token (pages ! i)) \<and> sr_status (pages ! i) = Some STATUS_OK
               \<and> sr_status (pages ! i) \<noteq> Some STATUS_ZERO_RESULTS
               \<and> int (length (concat (map sr_results (take (Suc i) pages)))) < L)"
proof -
  from search_loop_trace [OF assms(2)]
  have a: "collected = take (nat L) (concat (map sr_results pages))"
    and b: "\<forall>i. Suc i < length pages \<longrightarrow> continues L 0 pages i"
    by auto
  from search_loop_requests [OF assms(2)]
  have c: "\<forall>i < length pages.
             pages ! i = api_text_search api i kw loc rad
                           (if i = 0 then None else sr_next_page_token (pages ! (i - 1)))"
    by auto
  from a have "length collected \<le> nat L" by (metis length_take min.cobounded2)
  with assms(1) have d: "int (length collected) \<le> L" by simp
  from b have e: "\<forall>i. Suc i < length pages \<longrightarrow>
               truthy (sr_next_page_token (pages ! i)) \<and> sr_status (pages ! i) = Some STATUS_OK
               \<and> sr_status (pages ! i) \<noteq> Some STATUS_ZERO_RESULTS
               \<and> int (length (concat (map sr_results (take (Suc i) pages)))) < L"
    by (simp add: continues_def status_distinct)
  from a c d e show ?thesis by blast
qed

theorem accumulator_capped_witness:
  "search_loop (Suc (Suc 0)) example_api (u ''bayi'') (41, 36) 5000 3 [] None []
     = Some (Inr ([result_with_id (u ''a'' @ [0]), result_with_id (u ''b'' @ [0]),
                   result_with_id (u ''a'' @ [1])],
                  [example_page 0, example_page 1]))
   \<and> int (length [result_with_id (u ''a'' @ [0]), result_with_id (u ''b'' @ [0]),
                  result_with_id (u ''a'' @ [1])]) \<le> 3
   \<and> truthy (sr_next_page_token ([example_page 0, example_page 1] ! 0))"
proof -
  let ?C = "[result_with_id (u ''a'' @ [0]), result_with_id (u ''b'' @ [0]),
             result_with_id (u ''a'' @ [1])]"
  let ?P = "[example_page 0, example_page 1]"
  have h: "search_loop (Suc (Suc 0)) example_api (u ''bayi'') (41, 36) 5000 3 [] None []
             = Some (Inr (?C, ?P))"
    by (simp add: example_api_def example_page_def STATUS_OK_def STATUS_ZERO_RESULTS_def u_def
          Let_def)
  have l: "(1::int) \<le> 3" by simp
  note r = accumulator_capped [OF l h]
  from r have r1: "int (length ?C) \<le> 3" by (rule conjunct1)
  from r have "Suc 0 < length ?P \<longrightarrow> truthy (sr_next_page_token (?P ! 0))" by blast
  then have r3: "truthy (sr_next_page_token (?P ! 0))" by simp
  from h r1 r3 show ?thesis by blast
qed

subsection \<open>Detail enrichment\<close>

lemma enrich_without_details: "without_details (enrich api i item) = without_details item"
  by (simp add: enrich_def without_details_def split: option.splits lookup_outcome.splits)

lemma enrich_fails:
  assumes "\<And>pid. raw_place_id item = Some pid \<Longrightarrow> lookup_fails (api_place_details api i pid)"
  shows "enrich api i item = item"
  using assms
  by (auto simp: enrich_def lookup_fails_def split: option.splits lookup_outcome.splits)

lemma length_enrich_all: "length (enrich_all api collected) = length collected"
  by (simp add: enrich_all_def)

lemma enrich_all_without_details:
  "map without_details (enrich_all api collected) = map without_details collected"
proof -
  have a: "map without_details (enrich_all api collected)
             = map (without_details \<circ> snd) (enumerate 0 collected)"
    by (simp add: enrich_all_def enrich_without_details case_prod_unfold comp_def)
  have b: "map (without_details \<circ> snd) (enumerate 0 collected)
             = map without_details (map snd (enumerate 0 collected))"
    by (simp only: map_map)
  have c: "map snd (enumerate 0 collected) = collected"
    by (rule map_snd_enumerate)
  show ?thesis by (simp only: a b c)
qed

lemma enrich_all_fails:
  assumes "\<forall>i < length collected. \<forall>pid. raw_place_id (collected ! i) = Some pid \<longrightarrow>
             lookup_fails (api_place_details api i pid)"
  shows "enrich_all api collected = collected"
proof -
  have "map (\<lambda>(i, item). enrich api i item) (enumerate 0 collected)
          = map snd (enumerate 0 collected)"
  proof (rule map_cong [OF refl])
    fix p assume "p \<in> set (enumerate 0 collected)"
    then have "fst p < length collected" and "snd p = collected ! fst p"
      by (auto simp: in_set_enumerate_eq)
    with assms have "enrich api (fst p) (snd p) = snd p"
      by (intro enrich_fails) auto
    then show "(case p of (i, item) \<Rightarrow> enrich api i item) = snd p"
      by (simp add: case_prod_unfold)
  qed
  then show ?thesis by (simp add: enrich_all_def)
qed

lemma enrich_all_nth:
  assumes "i < length collected"
  shows "enrich_all api collected ! i = enrich api i (collected ! i)"
  using assms by (simp add: enrich_all_def nth_enumerate_eq)

lemma enrich_all_single_failure:
  assumes "i < length collected"
    and "\<forall>pid. raw_place_id (collected ! i) = Some pid \<longrightarrow>
           lookup_fails (api_place_details api i pid)"
  shows "enrich_all api collected ! i = collected ! i"
  using assms by (simp add: enrich_all_nth enrich_fails)

text \<open>
  Claim C5. Enrichment returns every collected result, in order, changed at most in its
  \<^verbatim>\<open>details\<close> block. A result whose lookup raises or answers with a status other
  than \<^verbatim>\<open>OK\<close> is left as it was, and a batch in which every lookup fails is returned
  unchanged. Whether \<^verbatim>\<open>search_leads\<close> returns, and whether it returns an error, does
  not depend on enrichment: with enrichment it returns the error it returns without, or
  the same results up to their \<^verbatim>\<open>details\<close>.
\<close>

theorem enrichment_is_best_effort:
  "length (enrich_all api collected) = length collected
   \<and> map without_details (enrich_all api collected) = map without_details collected
   \<and> (\<forall>i < length collected.
         (\<forall>pid. raw_place_id (collected ! i) = Some pid \<longrightarrow>
            lookup_fails (api_place_details api i pid))
         \<longrightarrow> enrich_all api collected ! i = collected ! i)
   \<and> ((\<forall>i < length collected. \<forall>pid. raw_place_id (collected ! i) = Some pid \<longrightarrow>
           lookup_fails (api_place_details api i pid))
        \<longrightarrow> enrich_all api collected = collected)
   \<and> (case search_leads fuel U api kw lt rad L False of
         None \<Rightarrow> search_leads fuel U api kw lt rad L True = None
       | Some (Inl e) \<Rightarrow> search_leads fuel U api kw lt rad L True = Some (Inl e)
       | Some (Inr ok) \<Rightarrow>
           (\<exists>ok1. search_leads fuel U api kw lt rad L True = Some (Inr ok1)
                 \<and> so_total ok1 = so_total ok
                 \<and> map without_details (so_leads_raw ok1) = map without_details (so_leads_raw ok)
                 \<and> ((\<forall>i < length (so_leads_raw ok). \<forall>pid.
                        raw_place_id (so_leads_raw ok ! i) = Some pid \<longrightarrow>
                          lookup_fails (api_place_details api i pid))
                      \<longrightarrow> so_leads_raw ok1 = so_leads_raw ok)))"
proof -
  have four: "(case search_leads fuel U api kw lt rad L False of
         None \<Rightarrow> search_leads fuel U api kw lt rad L True = None
       | Some (Inl e) \<Rightarrow> search_leads fuel U api kw lt rad L True = Some (Inl e)
       | Some (Inr ok) \<Rightarrow>
           (\<exists>ok1. search_leads fuel U api kw lt rad L True = Some (Inr ok1)
                 \<and> so_total ok1 = so_total ok
                 \<and> map without_details (so_leads_raw ok1) = map without_details (so_leads_raw ok)
                 \<and> ((\<forall>i < length (so_leads_raw ok). \<forall>pid.
                        raw_place_id (so_leads_raw ok ! i) = Some pid \<longrightarrow>
                          lookup_fails (api_place_details api i pid))
                      \<longrightarrow> so_leads_raw ok1 = so_leads_raw ok)))"
  proof (cases "geocode U api lt")
    case None
    then show ?thesis by (simp add: search_leads_def)
  next
    case (Some g)
    show ?thesis
    proof (cases "search_loop fuel api kw g rad L [] None []")
      case None
      with Some show ?thesis by (simp add: search_leads_def)
    next
      case (Some res)
      show ?thesis
      proof (cases res)
        case (Inl e)
        with Some \<open>geocode U api lt = Some g\<close> show ?thesis by (simp add: search_leads_def)
      next
        case (Inr cp)
        obtain c p where cp: "cp = (c, p)" by (cases cp)
        show ?thesis
          using Some \<open>geocode U api lt = Some g\<close> Inr cp
          by (auto simp: search_leads_def length_enrich_all enrich_all_without_details
                enrich_all_fails)
      qed
    qed
  qed
  show ?thesis
    using length_enrich_all [of api collected] enrich_all_without_details [of api collected]
      enrich_all_fails [of collected api] enrich_all_single_failure [of _ collected api] four
    by blast
qed

theorem enrichment_is_best_effort_witness:
  "lookup_fails (api_place_details example_api 0 (u ''a''))
   \<and> lookup_fails (api_place_details example_api 1 (u ''b''))
   \<and> enrich_all example_api [result_with_id (u ''a''), result_with_id (u ''b'')]
       = [result_with_id (u ''a''), result_with_id (u ''b'')]"
proof -
  let ?C = "[result_with_id (u ''a''), result_with_id (u ''b'')]"
  have h: "\<forall>i < length ?C. \<forall>pid. raw_place_id (?C ! i) = Some pid \<longrightarrow>
             lookup_fails (api_place_details example_api i pid)"
    by (simp add: example_api_def lookup_fails_def)
  have f: "lookup_fails (api_place_details example_api 0 (u ''a''))"
          "lookup_fails (api_place_details example_api 1 (u ''b''))"
    by (simp_all add: example_api_def lookup_fails_def)
  from enrichment_is_best_effort [of example_api ?C] h
  have "enrich_all example_api ?C = ?C" by blast
  with f show ?thesis by blast
qed

subsection \<open>The limit of the tool\<close>

lemma clamp_limit_range: "1 \<le> clamp_limit l \<and> clamp_limit l \<le> 120"
  by (simp add: clamp_limit_def Let_def)

lemma clamp_limit_idem: "clamp_limit (clamp_limit l) = clamp_limit l"
  by (simp add: clamp_limit_def Let_def)

lemma search_loop_length:
  assumes "search_loop fuel api kw loc rad L [] None [] = Some (Inr (collected, pages))"
  shows "length collected \<le> nat L"
proof -
  from search_loop_trace [OF assms]
  have "collected = take (nat L) (concat (map sr_results pages))" by auto
  then show ?thesis by (metis length_take min.cobounded2)
qed

lemma search_leads_length:
  assumes "search_leads fuel U api kw lt rad L det = Some (Inr raw)"
  shows "length (so_leads_raw raw) \<le> nat L"
proof -
  from assms obtain g where g: "geocode U api lt = Some g"
    by (cases "geocode U api lt") (auto simp: search_leads_def)
  from assms g obtain c p where
    l: "search_loop fuel api kw g rad L [] None [] = Some (Inr (c, p))"
    by (auto simp: search_leads_def split: option.splits sum.splits)
  from assms g l have "length (so_leads_raw raw) = length c"
    by (auto simp: search_leads_def length_enrich_all split: if_splits)
  with search_loop_length [OF l] show ?thesis by simp
qed

lemma length_dedupe: "length (dedupe U mode xs) \<le> length xs"
  using dedupe_loop_subseq [of U mode "{}" xs]
  by (simp add: dedupe_def list_emb_length)

lemma length_filter_and_dedupe:
  "length (filter_and_dedupe U loc flt mode xs) \<le> length xs"
proof -
  have "length (filter_and_dedupe U loc flt mode xs)
          \<le> length (filter (pass_filters U loc flt) xs)"
    by (simp add: filter_and_dedupe_def length_dedupe)
  also have "\<dots> \<le> length xs" by simp
  finally show ?thesis .
qed

text \<open>
  Claim C9. The limit of a call is brought into the range from 1 to 120 before the
  search runs: a limit below 1 becomes 1, a limit above 120 becomes 120, a limit in the
  range is kept. The call behaves as the call with the clamped limit does, so that no
  limit makes it fail, and a response that carries leads carries at most 120.
\<close>

theorem limit_clamped:
  "1 \<le> clamp_limit l \<and> clamp_limit l \<le> 120
   \<and> (l < 1 \<longrightarrow> clamp_limit l = 1)
   \<and> (120 < l \<longrightarrow> clamp_limit l = 120)
   \<and> (1 \<le> l \<and> l \<le> 120 \<longrightarrow> clamp_limit l = l)
   \<and> find_business_leads fuel U env req
       = find_business_leads fuel U env (req\<lparr>rq_limit := clamp_limit (rq_limit req)\<rparr>)
   \<and> (\<forall>out. find_business_leads fuel U env req = Some (Returned (JsonResponse out))
         \<longrightarrow> length (jo_leads out) \<le> 120 \<and> jo_total out \<le> 120)
   \<and> (\<forall>out. find_business_leads fuel U env req = Some (Returned (CsvResponse out))
         \<longrightarrow> length (co_rows out) \<le> 120 \<and> co_total out \<le> 120)"
proof -
  have vals: "(l < 1 \<longrightarrow> clamp_limit l = 1) \<and> (120 < l \<longrightarrow> clamp_limit l = 120)
              \<and> (1 \<le> l \<and> l \<le> 120 \<longrightarrow> clamp_limit l = l)"
    by (simp add: clamp_limit_def Let_def)
  have same: "find_business_leads fuel U env req
       = find_business_leads fuel U env (req\<lparr>rq_limit := clamp_limit (rq_limit req)\<rparr>)"
  proof -
    let ?s = "search_leads fuel U (env_places env) (rq_keyword req) (rq_location_text req)
                (rq_radius_meters req) (clamp_limit (rq_limit req)) (rq_include_details req)"
    have ex: "export_leads U sh (req\<lparr>rq_limit := x\<rparr>) unique = export_leads U sh req unique"
      for sh x unique
      by (simp add: export_leads_def cong: sum.case_cong)
    show ?thesis
    proof (cases ?s)
      case None
      then show ?thesis by (simp add: find_business_leads_def clamp_limit_idem)
    next
      case (Some r)
      then show ?thesis
        by (cases r) (simp_all add: find_business_leads_def clamp_limit_idem ex Let_def
              cong: sum.case_cong if_cong)
    qed
  qed
  have bound: "length (filter_and_dedupe U loc flt mode (map to_lead (so_leads_raw raw))) \<le> 120"
    if "search_leads fuel U (env_places env) (rq_keyword req) (rq_location_text req)
          (rq_radius_meters req) (clamp_limit (rq_limit req)) (rq_include_details req)
        = Some (Inr raw)" for raw loc flt mode
  proof -
    have "length (filter_and_dedupe U loc flt mode (map to_lead (so_leads_raw raw)))
            \<le> length (so_leads_raw raw)"
      using length_filter_and_dedupe [of U loc flt mode "map to_lead (so_leads_raw raw)"] by simp
    also have "\<dots> \<le> nat (clamp_limit (rq_limit req))"
      using that by (rule search_leads_length)
    also have "\<dots> \<le> 120" using clamp_limit_range [of "rq_limit req"] by linarith
    finally show ?thesis .
  qed
  have json: "length (jo_leads out) \<le> 120 \<and> jo_total out \<le> 120"
    if "find_business_leads fuel U env req = Some (Returned (JsonResponse out))" for out
    using that bound
    by (auto simp: find_business_leads_def Let_def split: if_splits option.splits sum.splits)
  have csv: "length (co_rows out) \<le> 120 \<and> co_total out \<le> 120"
    if "find_business_leads fuel U env req = Some (Returned (CsvResponse out))" for out
    using that bound
    by (auto simp: find_business_leads_def Let_def split: if_splits option.splits sum.splits)
  from clamp_limit_range [of l] vals same json csv show ?thesis by blast
qed

theorem limit_clamped_witness:
  "clamp_limit 500 = 120 \<and> clamp_limit (- 3) = 1
   \<and> find_business_leads (Suc 0) tr_ucd example_env (example_request\<lparr>rq_limit := - 3\<rparr>)
       = find_business_leads (Suc 0) tr_ucd example_env (example_request\<lparr>rq_limit := 1\<rparr>)"
proof -
  have a: "clamp_limit 500 = 120"
    using limit_clamped [of 500 "Suc 0" tr_ucd example_env example_request] by simp
  have b: "clamp_limit (- 3) = 1"
    using limit_clamped [of "- 3" "Suc 0" tr_ucd example_env example_request] by simp
  have c: "find_business_leads (Suc 0) tr_ucd example_env (example_request\<lparr>rq_limit := - 3\<rparr>)
       = find_business_leads (Suc 0) tr_ucd example_env (example_request\<lparr>rq_limit := 1\<rparr>)"
    using limit_clamped [of 0 "Suc 0" tr_ucd example_env "example_request\<lparr>rq_limit := - 3\<rparr>"] b
    by simp
  from a b c show ?thesis by blast
qed

subsection \<open>The export\<close>

lemma appender_init_sheet_name:
  "appender_init sh sid nm = Inr ap \<Longrightarrow> ap_sheet_name ap = u ''Leads''"
  by (auto simp: appender_init_def Let_def split: option.splits if_splits)

lemma ensure_header_without_tab:
  assumes "ap_sheet_name ap = u ''Leads''"
    and "sh_sheet_titles sh 0 = Inr titles" and "Some (u ''Leads'') \<notin> set titles"
  shows "ensure_header sh ap header = Inl (sheet_missing_message (u ''Leads''))"
  using assms by (simp add: ensure_header_def check_sheet_exists_def)

lemma export_leads_without_tab:
  assumes "appender_init sh (rq_google_sheets_spreadsheet_id req) nm = Inr ap"
    and "sh_sheet_titles sh 0 = Inr titles" and "Some (u ''Leads'') \<notin> set titles"
  shows "export_leads U sh req unique = Inl (sheet_missing_message (u ''Leads''))"
proof -
  have indep: "appender_init sh sid n1 = appender_init sh sid n2" for sid n1 n2
    by (simp add: appender_init_def)
  let ?n = "if truthy (rq_google_sheets_sheet_name req) then rq_google_sheets_sheet_name req
            else if truthy (sh_env_sheet_name sh) then sh_env_sheet_name sh
            else Some (u ''Leads'')"
  from assms(1) indep [of "rq_google_sheets_spreadsheet_id req" ?n nm]
  have i: "appender_init sh (rq_google_sheets_spreadsheet_id req) ?n = Inr ap" by simp
  from assms(1) have s: "ap_sheet_name ap = u ''Leads''" by (rule appender_init_sheet_name)
  have e: "ensure_header sh ap header = Inl (sheet_missing_message (u ''Leads''))" for header
    using s assms(2,3) by (rule ensure_header_without_tab)
  show ?thesis
    unfolding export_leads_def Let_def i by (simp add: e case_prod_unfold)
qed

lemma find_business_leads_export_fails:
  assumes "truthy (env_GOOGLE_MAPS_API_KEY env)"
    and "search_leads fuel U (env_places env) (rq_keyword req) (rq_location_text req)
           (rq_radius_meters req) (clamp_limit (rq_limit req)) (rq_include_details req)
         = Some (Inr raw)"
    and "rq_output_format req \<noteq> u ''csv''"
    and "rq_export_to_google_sheets req \<or> auto_export_on U env"
    and "export_leads U (env_sheets env) req (delivered_leads U req raw) = Inl e"
  shows "\<exists>out. find_business_leads fuel U env req = Some (Returned (JsonResponse out))
           \<and> jo_leads out = delivered_leads U req raw
           \<and> jo_total out = length (delivered_leads U req raw)
           \<and> jo_google_sheets out = Some (SheetsFailed (auto_export_on U env) e)"
  using assms
  by (auto simp: find_business_leads_def Let_def auto_export_on_def delivered_leads_def)

text \<open>
  Claim C8. When the search has succeeded and the export runs (the output is not CSV,
  and the export was asked for by the call or by the environment), every failure of
  the export is caught: the tool returns the success response with all the leads it
  delivers and their count, the failure being reported in \<^verbatim>\<open>google_sheets\<close> with
  \<^verbatim>\<open>ok\<close> false and the message of the exception. A spreadsheet without the tab
  \<^verbatim>\<open>Leads\<close> is such a failure, raised by \<^verbatim>\<open>ensure_header\<close>.
\<close>

theorem export_failure_is_not_fatal:
  assumes "truthy (env_GOOGLE_MAPS_API_KEY env)"
    and "search_leads fuel U (env_places env) (rq_keyword req) (rq_location_text req)
           (rq_radius_meters req) (clamp_limit (rq_limit req)) (rq_include_details req)
         = Some (Inr raw)"
    and "rq_output_format req \<noteq> u ''csv''"
    and "rq_export_to_google_sheets req \<or> auto_export_on U env"
  shows "(\<forall>e. export_leads U (env_sheets env) req (delivered_leads U req raw) = Inl e \<longrightarrow>
            (\<exists>out. find_business_leads fuel U env req = Some (Returned (JsonResponse out))
               \<and> jo_leads out = delivered_leads U req raw
               \<and> jo_total out = length (delivered_leads U req raw)
               \<and> jo_google_sheets out = Some (SheetsFailed (auto_export_on U env) e)))
         \<and> (\<forall>nm ap titles.
               appender_init (env_sheets env) (rq_google_sheets_spreadsheet_id req) nm = Inr ap
               \<and> sh_sheet_titles (env_sheets env) 0 = Inr titles
               \<and> Some (u ''Leads'') \<notin> set titles \<longrightarrow>
               export_leads U (env_sheets env) req (delivered_leads U req raw)
                 = Inl (sheet_missing_message (u ''Leads'')))"
  using find_business_leads_export_fails [OF assms] export_leads_without_tab
  by blast


theorem export_failure_is_not_fatal_witness:
  "\<exists>out. find_business_leads (Suc (Suc 0)) tr_ucd example_env example_request
            = Some (Returned (JsonResponse out))
         \<and> length (jo_leads out) = 3
         \<and> jo_google_sheets out
             = Some (SheetsFailed False (sheet_missing_message (u ''Leads'')))"
proof -
  let ?raw = "\<lparr> so_leads_raw = [result_with_id (u ''a'' @ [0]), result_with_id (u ''b'' @ [0]),
                                 result_with_id (u ''a'' @ [Suc 0])],
                 so_total = 3, so_keyword = u ''bayi'', so_location_text = u ''Samsun'',
                 so_radius_meters = 5000, so_include_details = True,
                 so_location = (41, 36) \<rparr>"
  have key: "truthy (env_GOOGLE_MAPS_API_KEY example_env)"
    by (simp add: example_env_def u_def)
  have g: "geocode tr_ucd example_api (u ''Samsun'') = Some (41, 36)"
    by (simp add: geocode_def example_api_def STATUS_OK_def Let_def)
  have l: "search_loop (Suc (Suc 0)) example_api (u ''bayi'') (41, 36) 5000 3 [] None []
             = Some (Inr ([result_with_id (u ''a'' @ [0]), result_with_id (u ''b'' @ [0]),
                           result_with_id (u ''a'' @ [Suc 0])],
                          [example_page 0, example_page (Suc 0)]))"
    by (simp add: example_api_def example_page_def STATUS_OK_def STATUS_ZERO_RESULTS_def u_def
          Let_def)
  have en: "enrich_all example_api [result_with_id (u ''a'' @ [0]), result_with_id (u ''b'' @ [0]),
                           result_with_id (u ''a'' @ [Suc 0])]
            = [result_with_id (u ''a'' @ [0]), result_with_id (u ''b'' @ [0]),
                           result_with_id (u ''a'' @ [Suc 0])]"
    by (rule enrich_all_fails) (simp add: example_api_def lookup_fails_def)
  have c: "clamp_limit 3 = 3" by (simp add: clamp_limit_def)
  have search: "search_leads (Suc (Suc 0)) tr_ucd (env_places example_env)
                  (rq_keyword example_request) (rq_location_text example_request)
                  (rq_radius_meters example_request) (clamp_limit (rq_limit example_request))
                  (rq_include_details example_request) = Some (Inr ?raw)"
    unfolding search_leads_def
    by (simp add: example_env_def example_request_def c g l en Let_def del: search_loop.simps)
  have fmt: "rq_output_format example_request \<noteq> u ''csv''"
    by (simp add: example_request_def u_def)
  have runs: "rq_export_to_google_sheets example_request \<or> auto_export_on tr_ucd example_env"
    by (simp add: example_request_def)
  have off: "auto_export_on tr_ucd example_env = False"
    by (simp add: auto_export_on_def example_env_def py_strip_def tr_defs)
  have ap: "appender_init (env_sheets example_env)
              (rq_google_sheets_spreadsheet_id example_request) None
            = Inr \<lparr> ap_spreadsheet_id = u ''sheet-1'', ap_sheet_name = u ''Leads'' \<rparr>"
    by (simp add: appender_init_def example_env_def example_sheets_def example_request_def u_def)
  have titles: "sh_sheet_titles (env_sheets example_env) 0 = Inr [Some (u ''Sheet1'')]"
    by (simp add: example_env_def example_sheets_def)
  have missing: "Some (u ''Leads'') \<notin> set [Some (u ''Sheet1'')]"
    by (simp add: u_def)
  have n: "length (delivered_leads tr_ucd example_request ?raw) = 3"
    by (simp add: delivered_leads_def filter_and_dedupe_def dedupe_def pass_filters_def
          geo_gate_def attribute_filters_def no_filters_def example_request_def to_lead_def
          result_with_id_def dedupe_key_of_def extract_il_from_location_text_def
          py_strip_def tr_defs Let_def)
  note t = export_failure_is_not_fatal [OF key search fmt runs]
  from t ap titles missing
  have ex: "export_leads tr_ucd (env_sheets example_env) example_request
              (delivered_leads tr_ucd example_request ?raw)
            = Inl (sheet_missing_message (u ''Leads''))"
    by blast
  with t obtain out where
    "find_business_leads (Suc (Suc 0)) tr_ucd example_env example_request
       = Some (Returned (JsonResponse out))"
    "jo_leads out = delivered_leads tr_ucd example_request ?raw"
    "jo_google_sheets out
       = Some (SheetsFailed (auto_export_on tr_ucd example_env)
                 (sheet_missing_message (u ''Leads'')))"
    by blast
  with n off show ?thesis by auto
qed

subsection \<open>The fallback to the part before the last\<close>

lemma in_set_dropWhile: "c \<in> set s \<Longrightarrow> \<not> P c \<Longrightarrow> c \<in> set (dropWhile P s)"
  by (induction s) auto

lemma in_set_py_strip:
  assumes "c \<in> set s" and "\<not> uc_space U c"
  shows "c \<in> set (py_strip U s)"
proof -
  from assms have "c \<in> set (rev (dropWhile (uc_space U) s))"
    by (simp add: in_set_dropWhile)
  then have "c \<in> set (dropWhile (uc_space U) (rev (dropWhile (uc_space U) s)))"
    using assms(2) by (rule in_set_dropWhile)
  then show ?thesis by (simp add: py_strip_def)
qed

lemma in_set_py_replace:
  "c \<in> set s \<Longrightarrow> c \<notin> set old \<Longrightarrow> c \<in> set (py_replace old new s)"
proof (induction old new s rule: py_replace.induct)
  case (1 old new)
  then show ?case by simp
next
  case (2 old new d ds)
  show ?case
  proof (cases "old \<noteq> [] \<and> prefix old (d # ds)")
    case True
    then obtain rest where r: "d # ds = old @ rest" by (auto simp: prefix_def)
    then have dr: "drop (length old) (d # ds) = rest" by (metis append_eq_conv_conj)
    from "2.prems" r have "c \<in> set rest" by (metis Un_iff set_append)
    with dr have "c \<in> set (drop (length old) (d # ds))" by simp
    with True "2.IH"(1) "2.prems"(2) have "c \<in> set (py_replace old new (drop (length old) (d # ds)))"
      by blast
    with True show ?thesis by simp
  next
    case False
    with "2.IH"(2) "2.prems" show ?thesis by auto
  qed
qed

lemma digits5_decimal: "digits5 U s \<Longrightarrow> c \<in> set (take 5 s) \<Longrightarrow> uc_decimal U c"
  by (auto simp: digits5_def list_all_iff)

lemma in_set_re_sub:
  "c \<in> set s \<Longrightarrow> \<not> uc_decimal U c \<Longrightarrow> \<not> uc_space U c \<Longrightarrow> c \<in> set (re_sub_digits5_ws U s)"
proof (induction U s rule: re_sub_digits5_ws.induct)
  case (1 U)
  then show ?case by simp
next
  case (2 U d ds)
  show ?case
  proof (cases "digits5 U (d # ds)")
    case True
    have "set (d # ds) = set (take 5 (d # ds)) \<union> set (drop 5 (d # ds))"
      by (metis append_take_drop_id set_append)
    with "2.prems"(1) have "c \<in> set (take 5 (d # ds)) \<or> c \<in> set (drop 5 (d # ds))" by blast
    with digits5_decimal [OF True] "2.prems"(2) have "c \<in> set (drop 5 (d # ds))" by blast
    with "2.prems"(3) have "c \<in> set (dropWhile (uc_space U) (drop 5 (d # ds)))"
      by (simp add: in_set_dropWhile)
    with True "2.IH"(1) "2.prems"(2,3) show ?thesis by simp
  next
    case False
    with "2.IH"(2) "2.prems" show ?thesis by auto
  qed
qed

lemma py_in_single: "py_in [c] s = (c \<in> set s)"
  by (induction s) auto

lemma no_decimal_no_digits5:
  "\<forall>c \<in> set s. \<not> uc_decimal U c \<Longrightarrow> \<not> re_search_digits5 U s"
proof (induction s)
  case Nil
  then show ?case by simp
next
  case (Cons d ds)
  have "\<not> digits5 U (d # ds)"
  proof
    assume "digits5 U (d # ds)"
    then have "uc_decimal U d" by (simp add: digits5_def)
    with Cons.prems show False by simp
  qed
  with Cons show ?case by simp
qed

lemma slash_survives:
  assumes "SLASH \<in> set (last parts)" and "\<not> uc_space U SLASH" and "\<not> uc_decimal U SLASH"
  shows "SLASH \<in> set (trailing_candidate U parts)"
proof -
  have t: "SLASH \<notin> set TURKIYE" "SLASH \<notin> set TURKEY_LC"
    by (simp_all add: SLASH_def TURKIYE_def TURKEY_LC_def u_def c_u_diaeresis_def)
  from assms(1,2) have "SLASH \<in> set (py_strip U (last parts))" by (rule in_set_py_strip)
  then have "SLASH \<in> set (py_replace TURKIYE [] (py_strip U (last parts)))"
    using t(1) by (rule in_set_py_replace)
  then have "SLASH \<in> set (py_replace TURKEY_LC [] (py_replace TURKIYE [] (py_strip U (last parts))))"
    using t(2) by (rule in_set_py_replace)
  then have "SLASH \<in> set (py_strip U (py_replace TURKEY_LC [] (py_replace TURKIYE []
                              (py_strip U (last parts)))))"
    using assms(2) by (rule in_set_py_strip)
  then have "SLASH \<in> set (re_sub_digits5_ws U (py_strip U (py_replace TURKEY_LC []
                              (py_replace TURKIYE [] (py_strip U (last parts))))))"
    using assms(3,2) by (rule in_set_re_sub)
  then have "SLASH \<in> set (py_strip U (re_sub_digits5_ws U (py_strip U (py_replace TURKEY_LC []
                              (py_replace TURKIYE [] (py_strip U (last parts)))))))"
    using assms(2) by (rule in_set_py_strip)
  then show ?thesis by (simp add: trailing_candidate_def Let_def)
qed

lemma py_split_length_ge2: "2 \<le> length (py_split sep a) \<Longrightarrow> a \<noteq> []"
  by (cases a) auto

text \<open>
  Claim C7. Let the address hold no postal code and at least two comma-separated parts,
  let nothing be left of the trailing part once the country name and the postal codes
  are taken out of it, and let the part before it have at most three tokens and no
  digit. Then \<^verbatim>\<open>_parse_il_from_address_only\<close> takes that part as its candidate, and
  \<^verbatim>\<open>_parse_il_ilce\<close> takes it as the district candidate and, when no location is
  declared, returns it as the district. The two conditions on the character table say
  that the slash is neither whitespace nor a digit.
\<close>

theorem second_last_fallback:
  assumes no_postal: "extract_postal_code_from_address U a = None"
    and parts: "parts = map (py_strip U) (py_split COMMA a)" "2 \<le> length parts"
    and empty: "trailing_candidate U parts = []"
    and second: "second_last = py_strip U (parts ! (length parts - 2))"
    and short: "length (py_split_ws U second_last) \<le> 3"
    and no_digits: "\<forall>c \<in> set second_last. \<not> uc_decimal U c"
    and slash: "\<not> uc_space U SLASH" "\<not> uc_decimal U SLASH"
  shows "address_only_candidate U parts = second_last
         \<and> address_candidates U parts = (Some (last parts), Some second_last)
         \<and> parse_il_ilce U (Some a) None = (Some (last parts), Some second_last)"
proof -
  from no_digits have nd: "\<not> re_search_digits5 U second_last" by (rule no_decimal_no_digits5)
  have one: "address_only_candidate U parts = second_last"
    using parts(2) empty second short nd by (simp add: address_only_candidate_def Let_def)
  have ns: "SLASH \<notin> set (last parts)"
  proof
    assume "SLASH \<in> set (last parts)"
    then have "SLASH \<in> set (trailing_candidate U parts)" using slash by (rule slash_survives)
    with empty show False by simp
  qed
  have two: "address_candidates U parts = (Some (last parts), Some second_last)"
    using ns parts(2) second short nd
    by (simp add: address_candidates_def Let_def py_in_single)
  from parts have a: "a \<noteq> []" by (auto dest: py_split_length_ge2)
  from parts(2) have pne: "parts \<noteq> []" by auto
  have valid: "is_ilce_valid_for_il U (Some second_last) (Some (last parts)) (Some a)"
    using no_postal by (simp add: is_ilce_valid_for_il_def)
  have three: "parse_il_ilce U (Some a) None = (Some (last parts), Some second_last)"
    using a no_postal parts(1) pne two valid
    by (simp add: parse_il_ilce_def reconcile_with_location_def Let_def)
  from one two three show ?thesis by blast
qed

theorem second_last_fallback_witness:
  "extract_postal_code_from_address tr_ucd (u ''Atakum, '' @ TURKIYE) = None
   \<and> trailing_candidate tr_ucd [u ''Atakum'', TURKIYE] = []
   \<and> address_only_candidate tr_ucd [u ''Atakum'', TURKIYE] = u ''Atakum''
   \<and> parse_il_ilce tr_ucd (Some (u ''Atakum, '' @ TURKIYE)) None
       = (Some TURKIYE, Some (u ''Atakum''))"
proof -
  let ?a = "u ''Atakum, '' @ TURKIYE"
  let ?parts = "[u ''Atakum'', TURKIYE]"
  have h1: "extract_postal_code_from_address tr_ucd ?a = None"
    by (simp add: tr_defs py_defs res_defs)
  have h2: "?parts = map (py_strip tr_ucd) (py_split COMMA ?a)"
    by (simp add: tr_defs py_defs)
  have h3: "2 \<le> length ?parts" by simp
  have h4: "trailing_candidate tr_ucd ?parts = []"
    by (simp add: tr_defs py_defs res_defs)
  have h5: "u ''Atakum'' = py_strip tr_ucd (?parts ! (length ?parts - 2))"
    by (simp add: tr_defs py_defs)
  have h6: "length (py_split_ws tr_ucd (u ''Atakum'')) \<le> 3"
    by (simp add: tr_defs py_defs)
  have h7: "\<forall>c \<in> set (u ''Atakum''). \<not> uc_decimal tr_ucd c"
    by (simp add: tr_defs)
  have h8: "\<not> uc_space tr_ucd SLASH" "\<not> uc_decimal tr_ucd SLASH"
    by (simp_all add: tr_defs)
  note r = second_last_fallback [OF h1 h2 h3 h4 h5 h6 h7 h8]
  have l: "last ?parts = TURKIYE" by simp
  from r l h1 h4 show ?thesis by simp
qed

text \<open>
  The guard of the source is weaker than ``no digits'': it refuses five digits in a
  row, and a part with fewer digits is still taken.
\<close>

lemma second_last_with_digits_example:
  "address_only_candidate tr_ucd [u ''No 12'', TURKIYE] = u ''No 12''"
  by (simp add: tr_defs py_defs res_defs)

subsection \<open>The substring check of the geographic gate\<close>

text \<open>
  When the address holds no postal code and no province is parsed from it, the gate
  looks for the normalised declared province in the lowercased address: the address is
  not freed of its diacritics.
\<close>

lemma geo_gate_fallback:
  assumes "loc \<noteq> []" and "formatted_address item = Some address" and "address \<noteq> []"
    and "extract_postal_code_from_address U address = None"
    and "\<not> truthy (parse_il_from_address_only U (Some address))"
  shows "geo_gate U (Some loc) item = py_in (normalize_il_name U loc) (uc_lower U address)"
  using assms by (simp add: geo_gate_def Let_def)

text \<open>
  Claim C3 does not hold of the source. The declared province is written with the g
  with breve, the address holds no postal code, no province is parsed from it, and the
  province stands in it letter for letter, hence also under a comparison that ignores
  case and diacritics. The gate rejects the lead all the same: the declared name is
  searched without its diacritic in an address that keeps its own.
\<close>

theorem fallback_misses_diacritics:
  "extract_il_from_location_text tr_ucd MUGLA = Some MUGLA
   \<and> extract_postal_code_from_address tr_ucd mugla_address = None
   \<and> parse_il_from_address_only tr_ucd (Some mugla_address) = None
   \<and> py_in MUGLA mugla_address
   \<and> py_in (normalize_il_name tr_ucd MUGLA) (normalize_il_name tr_ucd mugla_address)
   \<and> \<not> geo_gate tr_ucd (Some MUGLA) (lead_with_address (Some mugla_address))
   \<and> \<not> pass_filters tr_ucd (Some MUGLA) no_filters (lead_with_address (Some mugla_address))"
proof -
  have a: "extract_il_from_location_text tr_ucd MUGLA = Some MUGLA"
    by (simp add: MUGLA_def tr_defs py_defs res_defs)
  have b: "extract_postal_code_from_address tr_ucd mugla_address = None"
    by (simp add: mugla_address_def MUGLA_def tr_defs py_defs res_defs)
  have c: "parse_il_from_address_only tr_ucd (Some mugla_address) = None"
    by (simp add: mugla_address_def MUGLA_def tr_defs py_defs res_defs)
  have d: "py_in MUGLA mugla_address"
    by (simp add: mugla_address_def MUGLA_def tr_defs)
  have e: "py_in (normalize_il_name tr_ucd MUGLA) (normalize_il_name tr_ucd mugla_address)"
    by (simp add: mugla_address_def MUGLA_def tr_defs py_defs res_defs)
  have f: "\<not> py_in (normalize_il_name tr_ucd MUGLA) (uc_lower tr_ucd mugla_address)"
    by (simp add: mugla_address_def MUGLA_def tr_defs py_defs res_defs)
  have ne: "MUGLA \<noteq> []" "mugla_address \<noteq> []"
    by (simp_all add: mugla_address_def MUGLA_def)
  have g: "\<not> geo_gate tr_ucd (Some MUGLA) (lead_with_address (Some mugla_address))"
    using geo_gate_fallback [OF ne(1) _ ne(2) b, of "lead_with_address (Some mugla_address)"] c f
    by (simp add: lead_with_address_def)
  then have h: "\<not> pass_filters tr_ucd (Some MUGLA) no_filters (lead_with_address (Some mugla_address))"
    by (simp add: pass_filters_def)
  from a b c d e g h show ?thesis by blast
qed

theorem fallback_misses_diacritics_witness:
  "py_in MUGLA mugla_address
   \<and> \<not> pass_filters tr_ucd (Some MUGLA) no_filters (lead_with_address (Some mugla_address))"
  using fallback_misses_diacritics by blast

end
